theory Spec2Isabelle
  imports Main
begin

text \<open>
  A shallow embedding of \<^verbatim>\<open>yallah.py\<close>: the environment resolver, the bootstrap
  extractor, the application locator, the entry-asset fetcher and \<^verbatim>\<open>main\<close>, with the
  library functions they call (\<^verbatim>\<open>str.split\<close>, \<^verbatim>\<open>str.lower\<close>, \<^verbatim>\<open>re.search\<close>,
  \<^verbatim>\<open>base64.b64decode\<close>, \<^verbatim>\<open>bytes.decode\<close>, \<^verbatim>\<open>json.loads\<close>) modelled as CPython
  computes them, and the network, \<^verbatim>\<open>urlparse\<close> and the text of \<^verbatim>\<open>str()\<close> of a value
  that is not a \<^verbatim>\<open>str\<close> taken from an explicit environment.
\<close>

section \<open>Text\<close>

text \<open>
  A Python \<^verbatim>\<open>str\<close> is represented by its UTF-8 encoding: a \<^typ>\<open>string\<close> whose
  characters are the bytes. ASCII characters are single bytes, every byte of a character
  outside ASCII is at least 128, so a comparison with an ASCII literal, a split at an ASCII
  separator and a search for an ASCII delimiter see on the bytes what Python sees on the
  code points.
\<close>

definition byte :: "char \<Rightarrow> nat" where
  "byte c = of_char c"

definition is_ascii_upper :: "char \<Rightarrow> bool" where
  "is_ascii_upper c = (65 \<le> byte c \<and> byte c \<le> 90)"

definition ascii_lower_char :: "char \<Rightarrow> char" where
  "ascii_lower_char c = (if is_ascii_upper c then char_of (byte c + 32) else c)"

text \<open>
  \<^verbatim>\<open>s.lower()\<close>, as far as a comparison with a literal made of the ASCII letters other
  than \<^verbatim>\<open>i\<close> and \<^verbatim>\<open>k\<close> can tell: the letters A-Z go to a-z, and no character outside
  ASCII lowers to text that holds one of these letters (in Unicode only U+0130 and U+212A
  lower to text with an ASCII letter, \<^verbatim>\<open>i\<close> and \<^verbatim>\<open>k\<close>).
\<close>

definition lower :: "string \<Rightarrow> string" where
  "lower s = map ascii_lower_char s"

text \<open>\<^verbatim>\<open>s.split(sep)\<close> for a separator of one character; \<open>acc\<close> is the current part, reversed.\<close>

fun split_acc :: "char \<Rightarrow> string \<Rightarrow> string \<Rightarrow> string list" where
  "split_acc sep acc [] = [rev acc]"
| "split_acc sep acc (c # cs) =
     (if c = sep then rev acc # split_acc sep [] cs else split_acc sep (c # acc) cs)"

definition split :: "string \<Rightarrow> char \<Rightarrow> string list" where
  "split s sep = split_acc sep [] s"

section \<open>Environment resolver\<close>

text \<open>
  \<^verbatim>\<open>
  def determine_env_type(hostname: str) -> str:
      parts = hostname.split(".")
      if not parts:
          return "prod"
      if parts[0].lower() == "sandbox":
          return "prod"
      if len(parts) > 1 and parts[1].lower() in {"dev", "ondemand"}:
          return "dev"
      return "prod"
  \<close>
  The two index reads are guarded in the source (\<open>parts\<close> is not empty at the first,
  has a second element at the second), so the pattern match below is the same reads.
\<close>

definition determine_env_type :: "string \<Rightarrow> string" where
  "determine_env_type hostname =
     (let parts = split hostname (CHR ''.'') in
      case parts of
        [] \<Rightarrow> ''prod''
      | p0 # rest \<Rightarrow>
          if lower p0 = ''sandbox'' then ''prod''
          else (case rest of
                  p1 # _ \<Rightarrow> if lower p1 \<in> {''dev'', ''ondemand''} then ''dev'' else ''prod''
                | [] \<Rightarrow> ''prod''))"

section \<open>Python values\<close>

text \<open>
  A \<^verbatim>\<open>float\<close> is an IEEE 754 binary64 value: \<open>FFinite neg m e\<close> is
  \<open>(-1)\<^bsup>neg\<^esup> \<sqdot> m \<sqdot> 2\<^bsup>e\<^esup>\<close> in the one form with \<open>2\<^bsup>52\<^esup> \<le> m < 2\<^bsup>53\<^esup>\<close>
  and \<open>-1074 \<le> e \<le> 971\<close>, or \<open>m < 2\<^bsup>52\<^esup>\<close> and \<open>e = -1074\<close>.
\<close>

datatype pyfloat = FFinite bool nat int | FInf bool | FNaN

text \<open>
  The objects \<^verbatim>\<open>json.loads\<close> builds, and \<^verbatim>\<open>None\<close>. A \<^verbatim>\<open>dict\<close> is the list of its
  items in insertion order, each key once.
\<close>

datatype pyval =
    PNone
  | PBool bool
  | PInt int
  | PFloat pyfloat
  | PStr string
  | PList "pyval list"
  | PDict "(string \<times> pyval) list"

text \<open>
  The exceptions the program meets. All but \<open>KeyboardInterrupt\<close> are subclasses of
  \<^verbatim>\<open>Exception\<close>; \<open>LibraryError\<close> stands for every other subclass of \<^verbatim>\<open>Exception\<close> a
  library raises (\<^verbatim>\<open>requests.ConnectionError\<close>, \<^verbatim>\<open>requests.Timeout\<close>, ...). The string is
  \<^verbatim>\<open>str(exc)\<close>.
\<close>

datatype exn_class =
    BinasciiError | ValueError | UnicodeDecodeError | JSONDecodeError
  | AttributeError | TypeError | KeyError | IndexError
  | HTTPError | LibraryError | KeyboardInterrupt

datatype exn = Exn exn_class string

fun is_Exception :: "exn \<Rightarrow> bool" where
  "is_Exception (Exn c msg) = (c \<noteq> KeyboardInterrupt)"

fun message :: "exn \<Rightarrow> string" where
  "message (Exn c msg) = msg"

text \<open>\<^verbatim>\<open>bool(x)\<close>, the test of \<^verbatim>\<open>if x:\<close> and \<^verbatim>\<open>not x\<close>.\<close>

fun truthy :: "pyval \<Rightarrow> bool" where
  "truthy PNone = False"
| "truthy (PBool b) = b"
| "truthy (PInt i) = (i \<noteq> 0)"
| "truthy (PFloat (FFinite neg m e)) = (m \<noteq> 0)"
| "truthy (PFloat (FInf neg)) = True"
| "truthy (PFloat FNaN) = True"
| "truthy (PStr s) = (s \<noteq> [])"
| "truthy (PList xs) = (xs \<noteq> [])"
| "truthy (PDict d) = (d \<noteq> [])"

text \<open>Exact comparison of a float with an integer, and of two floats (\<^verbatim>\<open>nan\<close> equals nothing).\<close>

fun float_eq_int :: "pyfloat \<Rightarrow> int \<Rightarrow> bool" where
  "float_eq_int (FFinite neg m e) i =
     (let v = (if neg then - int m else int m) in
      if 0 \<le> e then v * 2 ^ nat e = i else v = i * 2 ^ nat (- e))"
| "float_eq_int (FInf neg) i = False"
| "float_eq_int FNaN i = False"

fun float_eq :: "pyfloat \<Rightarrow> pyfloat \<Rightarrow> bool" where
  "float_eq (FFinite n1 m1 e1) (FFinite n2 m2 e2) =
     ((m1 = 0 \<and> m2 = 0) \<or> (n1 = n2 \<and> m1 = m2 \<and> e1 = e2))"
| "float_eq (FInf n1) (FInf n2) = (n1 = n2)"
| "float_eq f g = False"

text \<open>
  \<^verbatim>\<open>a == b\<close>. \<^verbatim>\<open>bool\<close> is a subclass of \<^verbatim>\<open>int\<close> (\<^verbatim>\<open>True == 1\<close>), numbers compare by
  value, lists item by item, dicts key by key whatever the order. Inside a list or a
  dict, two items that are the same object are equal without being compared; the one
  object that is not equal to itself is \<^verbatim>\<open>nan\<close>, and \<^verbatim>\<open>json\<close> returns the same \<^verbatim>\<open>nan\<close>
  object for every \<^verbatim>\<open>NaN\<close> it reads, so that \<^verbatim>\<open>[nan] == [nan]\<close> holds for its values
  while \<^verbatim>\<open>nan == nan\<close> does not.
\<close>

fun is_nan :: "pyval \<Rightarrow> bool" where
  "is_nan (PFloat FNaN) = True"
| "is_nan v = False"

fun py_eq :: "pyval \<Rightarrow> pyval \<Rightarrow> bool"
  and py_eq_list :: "pyval list \<Rightarrow> pyval list \<Rightarrow> bool"
  and py_eq_items :: "(string \<times> pyval) list \<Rightarrow> (string \<times> pyval) list \<Rightarrow> bool" where
  "py_eq PNone b = (b = PNone)"
| "py_eq (PStr s) b = (b = PStr s)"
| "py_eq (PBool x) b =
     (case b of PBool y \<Rightarrow> x = y | PInt j \<Rightarrow> (if x then 1 else 0) = j
      | PFloat g \<Rightarrow> float_eq_int g (if x then 1 else 0) | _ \<Rightarrow> False)"
| "py_eq (PInt i) b =
     (case b of PBool y \<Rightarrow> i = (if y then 1 else 0) | PInt j \<Rightarrow> i = j
      | PFloat g \<Rightarrow> float_eq_int g i | _ \<Rightarrow> False)"
| "py_eq (PFloat f) b =
     (case b of PBool y \<Rightarrow> float_eq_int f (if y then 1 else 0) | PInt j \<Rightarrow> float_eq_int f j
      | PFloat g \<Rightarrow> float_eq f g | _ \<Rightarrow> False)"
| "py_eq (PList xs) b = (case b of PList ys \<Rightarrow> py_eq_list xs ys | _ \<Rightarrow> False)"
| "py_eq (PDict d) b =
     (case b of PDict d' \<Rightarrow> length d = length d' \<and> py_eq_items d d' | _ \<Rightarrow> False)"
| "py_eq_list [] ys = (ys = [])"
| "py_eq_list (x # xs) ys =
     (case ys of
        [] \<Rightarrow> False
      | y # ys' \<Rightarrow> ((is_nan x \<and> is_nan y) \<or> py_eq x y) \<and> py_eq_list xs ys')"
| "py_eq_items [] d' = True"
| "py_eq_items (kv # d) d' =
     (case map_of d' (fst kv) of
        None \<Rightarrow> False
      | Some v' \<Rightarrow> ((is_nan (snd kv) \<and> is_nan v') \<or> py_eq (snd kv) v') \<and> py_eq_items d d')"

text \<open>
  The code points of a \<^verbatim>\<open>str\<close>, each as the \<^verbatim>\<open>str\<close> of one character (what
  \<^verbatim>\<open>for c in s\<close> visits): the lead byte of a UTF-8 sequence tells its length.
\<close>

definition utf8_width :: "char \<Rightarrow> nat" where
  "utf8_width c =
     (if byte c < 0xC0 then 1 else if byte c < 0xE0 then 2 else if byte c < 0xF0 then 3 else 4)"

fun utf8_chars :: "string \<Rightarrow> string list" where
  "utf8_chars [] = []"
| "utf8_chars (c # cs) =
     (c # take (utf8_width c - 1) cs) # utf8_chars (drop (utf8_width c - 1) cs)"

text \<open>
  \<^verbatim>\<open>for x in v\<close>: the items of a list, the keys of a dict, the characters of a str;
  anything else is not iterable.
\<close>

fun py_iter :: "pyval \<Rightarrow> exn + pyval list" where
  "py_iter (PList xs) = Inr xs"
| "py_iter (PDict d) = Inr (map (\<lambda>kv. PStr (fst kv)) d)"
| "py_iter (PStr s) = Inr (map PStr (utf8_chars s))"
| "py_iter v = Inl (Exn TypeError ''object is not iterable'')"

text \<open>\<^verbatim>\<open>v.get(key, default)\<close>: only a dict has the method.\<close>

fun py_get :: "pyval \<Rightarrow> string \<Rightarrow> pyval \<Rightarrow> exn + pyval" where
  "py_get (PDict d) k dflt = Inr (case map_of d k of None \<Rightarrow> dflt | Some v \<Rightarrow> v)"
| "py_get v k dflt = Inl (Exn AttributeError ''object has no attribute get'')"

section \<open>Application locator: the scan\<close>

text \<open>
  \<^verbatim>\<open>
  def find_app(apps, app_id):
      for app in apps:
          if app.get("id") == app_id:
              return app
      return None
  \<close>
\<close>

fun find_app_loop :: "pyval list \<Rightarrow> pyval \<Rightarrow> exn + pyval" where
  "find_app_loop [] app_id = Inr PNone"
| "find_app_loop (app # rest) app_id =
     (case py_get app ''id'' PNone of
        Inl e \<Rightarrow> Inl e
      | Inr v \<Rightarrow> if py_eq v app_id then Inr app else find_app_loop rest app_id)"

definition find_app :: "pyval \<Rightarrow> pyval \<Rightarrow> exn + pyval" where
  "find_app apps app_id =
     (case py_iter apps of Inl e \<Rightarrow> Inl e | Inr items \<Rightarrow> find_app_loop items app_id)"

section \<open>The specification's algorithms\<close>

text \<open>
  The environment resolver in the specification's words: split the hostname on \<open>.\<close>; if
  the result is empty, \<open>prod\<close>; if the first label (case-insensitive) is \<open>sandbox\<close>,
  \<open>prod\<close>; otherwise, if a second label exists and (case-insensitive) equals \<open>dev\<close> or
  \<open>ondemand\<close>, \<open>dev\<close>; by default \<open>prod\<close>. It is stated on its own terms: two texts are
  equal ignoring case when they have the same length and, position by position, the
  same character or the two cases of one letter of the table below; the hostname with
  the labels \<open>ls\<close> is \<open>dotted ls\<close>, the labels written with a \<open>.\<close> between them.
\<close>

definition ascii_cases :: "(char \<times> char) list" where
  "ascii_cases = zip ''abcdefghijklmnopqrstuvwxyz'' ''ABCDEFGHIJKLMNOPQRSTUVWXYZ''"

definition same_letter :: "char \<Rightarrow> char \<Rightarrow> bool" where
  "same_letter a b = (a = b \<or> (a, b) \<in> set ascii_cases \<or> (b, a) \<in> set ascii_cases)"

definition equals_ignoring_case :: "string \<Rightarrow> string \<Rightarrow> bool" where
  "equals_ignoring_case a b = list_all2 same_letter a b"

definition resolve_environment_spec :: "string list \<Rightarrow> string" where
  "resolve_environment_spec labels =
     (if labels = [] then ''prod''
      else if equals_ignoring_case (labels ! 0) ''sandbox'' then ''prod''
      else if 1 < length labels \<and>
              (equals_ignoring_case (labels ! 1) ''dev'' \<or> equals_ignoring_case (labels ! 1) ''ondemand'')
           then ''dev''
      else ''prod'')"

fun dotted :: "string list \<Rightarrow> string" where
  "dotted [] = []"
| "dotted [l] = l"
| "dotted (l # m # ls) = l @ ''.'' @ dotted (m # ls)"

text \<open>The \<open>id\<close> field of a descriptor, when the descriptor is a mapping that has one.\<close>

fun id_field :: "pyval \<Rightarrow> pyval option" where
  "id_field (PDict items) = map_of items ''id''"
| "id_field v = None"

fun is_dict :: "pyval \<Rightarrow> bool" where
  "is_dict (PDict items) = True"
| "is_dict v = False"

section \<open>Regular expression search\<close>

text \<open>
  \<^verbatim>\<open>re.search\<close> for the patterns the program uses: a sequence of literal characters,
  character sets \<^verbatim>\<open>[...]\<close> and \<^verbatim>\<open>[^...]\<close>, and greedy repetitions \<^verbatim>\<open>set+\<close>, a repetition
  possibly being the whole content of a capturing group. The flag \<^verbatim>\<open>re.IGNORECASE\<close> is on.
\<close>

datatype charset = In string | NotIn string

datatype node = Literal char | Any charset | Plus charset | Group_Plus charset

fun in_set :: "charset \<Rightarrow> char \<Rightarrow> bool" where
  "in_set (In cs) c = (c \<in> set cs)"
| "in_set (NotIn cs) c = (c \<notin> set cs)"

text \<open>
  Under \<^verbatim>\<open>IGNORECASE\<close> a pattern letter matches the characters that lower to it: its two
  ASCII cases, and for \<^verbatim>\<open>s\<close>, \<^verbatim>\<open>i\<close> and \<^verbatim>\<open>k\<close> also U+017F, U+0130 and U+0131, U+212A,
  here as their UTF-8 bytes. A set of characters without case (\<^verbatim>\<open>[^>]\<close>) is not affected.
\<close>

definition unicode_variants :: "char \<Rightarrow> string list" where
  "unicode_variants p =
     (if p = CHR ''s'' then [[CHR 0xC5, CHR 0xBF]]
      else if p = CHR ''i'' then [[CHR 0xC4, CHR 0xB0], [CHR 0xC4, CHR 0xB1]]
      else if p = CHR ''k'' then [[CHR 0xE2, CHR 0x84, CHR 0xAA]]
      else [])"

definition starts_with :: "string \<Rightarrow> string \<Rightarrow> bool" where
  "starts_with s p = (take (length p) s = p)"

text \<open>The text after the one character that matches the literal \<open>p\<close> at the start of \<open>s\<close>.\<close>

definition literal_rest :: "char \<Rightarrow> string \<Rightarrow> string option" where
  "literal_rest p s =
     (case s of
        [] \<Rightarrow> None
      | c # cs \<Rightarrow>
          if ascii_lower_char c = ascii_lower_char p then Some cs
          else (case find (starts_with s) (unicode_variants (ascii_lower_char p)) of
                  None \<Rightarrow> None
                | Some v \<Rightarrow> Some (drop (length v) s)))"

text \<open>
  Matching at a fixed start, with backtracking in the order of the \<^verbatim>\<open>re\<close> module: a greedy
  repetition first takes one more character if it can, and gives it back when the rest
  of the pattern does not match after it. The result is the list of the captured groups.
  \<open>plus_here\<close> is inside a repetition; \<open>seg\<close> holds what it took, reversed.
\<close>

fun match_here :: "node list \<Rightarrow> string \<Rightarrow> string list option"
  and plus_here :: "charset \<Rightarrow> bool \<Rightarrow> node list \<Rightarrow> string \<Rightarrow> string \<Rightarrow> string list option" where
  "match_here [] s = Some []"
| "match_here (Literal p # r) s =
     (case literal_rest p s of None \<Rightarrow> None | Some s' \<Rightarrow> match_here r s')"
| "match_here (Any cs # r) s =
     (case s of [] \<Rightarrow> None | c # t \<Rightarrow> if in_set cs c then match_here r t else None)"
| "match_here (Plus cs # r) s = plus_here cs False r [] s"
| "match_here (Group_Plus cs # r) s = plus_here cs True r [] s"
| "plus_here cs cap r seg [] = None"
| "plus_here cs cap r seg (c # t) =
     (if in_set cs c then
        (case plus_here cs cap r (c # seg) t of
           Some g \<Rightarrow> Some g
         | None \<Rightarrow>
            (case match_here r t of
               None \<Rightarrow> None
             | Some g \<Rightarrow> Some (if cap then rev (c # seg) # g else g)))
      else None)"

text \<open>\<^verbatim>\<open>re.search\<close>: the match at the leftmost start that has one.\<close>

fun re_search :: "node list \<Rightarrow> string \<Rightarrow> string list option" where
  "re_search pat [] = match_here pat []"
| "re_search pat (c # cs) =
     (case match_here pat (c # cs) of Some g \<Rightarrow> Some g | None \<Rightarrow> re_search pat cs)"

definition quotes :: charset where
  "quotes = In [CHR 0x22, CHR 0x27]"

text \<open>
  \<^verbatim>\<open><script[^>]+id=["\']cl-bootstrap["\'][^>]+src=["\']([^"#]+)#([^"\']+)["\']\<close>
\<close>

definition bootstrap_pattern :: "node list" where
  "bootstrap_pattern =
     map Literal ''<script'' @ [Plus (NotIn ''>'')] @
     map Literal ''id='' @ [Any quotes] @ map Literal ''cl-bootstrap'' @ [Any quotes] @
     [Plus (NotIn ''>'')] @
     map Literal ''src='' @ [Any quotes] @
     [Group_Plus (NotIn [CHR 0x22, CHR ''#'']), Literal (CHR ''#''),
      Group_Plus (NotIn [CHR 0x22, CHR 0x27]), Any quotes]"

section \<open>Base64\<close>

text \<open>
  \<^verbatim>\<open>base64.b64decode(s)\<close> for a \<^verbatim>\<open>str\<close>: the text must be ASCII (\<^verbatim>\<open>ValueError\<close>
  otherwise), then \<^verbatim>\<open>binascii.a2b_base64\<close> in its default, non-strict mode: characters
  outside the alphabet are skipped, decoding stops at the padding that completes a
  quad, and leftover characters raise \<^verbatim>\<open>binascii.Error\<close>.
\<close>

definition b64_index :: "char \<Rightarrow> nat option" where
  "b64_index c =
     (let n = byte c in
      if 65 \<le> n \<and> n \<le> 90 then Some (n - 65)
      else if 97 \<le> n \<and> n \<le> 122 then Some (n - 71)
      else if 48 \<le> n \<and> n \<le> 57 then Some (n + 4)
      else if c = CHR ''+'' then Some 62
      else if c = CHR ''/'' then Some 63
      else None)"

text \<open>
  The loop of \<^verbatim>\<open>a2b_base64\<close>; \<open>quad_pos\<close> is the position in the current group of four,
  \<open>leftchar\<close> the bits not yet written, \<open>pads\<close> the padding characters seen since the
  last data character, \<open>out\<close> the bytes written, reversed.
\<close>

fun a2b_base64 :: "string \<Rightarrow> nat \<Rightarrow> nat \<Rightarrow> nat \<Rightarrow> string \<Rightarrow> exn + string" where
  "a2b_base64 [] quad_pos leftchar pads out =
     (if quad_pos \<noteq> 0 then Inl (Exn BinasciiError ''Incorrect padding'') else Inr (rev out))"
| "a2b_base64 (c # cs) quad_pos leftchar pads out =
     (if c = CHR ''='' then
        (if 2 \<le> quad_pos then
           (if 4 \<le> quad_pos + (pads + 1) then Inr (rev out)
            else a2b_base64 cs quad_pos leftchar (pads + 1) out)
         else a2b_base64 cs quad_pos leftchar pads out)
      else
        (case b64_index c of
           None \<Rightarrow> a2b_base64 cs quad_pos leftchar pads out
         | Some v \<Rightarrow>
             if quad_pos = 0 then a2b_base64 cs 1 v 0 out
             else if quad_pos = 1 then
               a2b_base64 cs 2 (v mod 16) 0 (char_of (leftchar * 4 + v div 16) # out)
             else if quad_pos = 2 then
               a2b_base64 cs 3 (v mod 4) 0 (char_of (leftchar * 16 + v div 4) # out)
             else a2b_base64 cs 0 0 0 (char_of (leftchar * 64 + v) # out)))"

definition b64decode :: "string \<Rightarrow> exn + string" where
  "b64decode s =
     (if \<exists>c \<in> set s. 128 \<le> byte c
      then Inl (Exn ValueError ''string argument should contain only ASCII characters'')
      else a2b_base64 s 0 0 0 [])"

section \<open>UTF-8\<close>

text \<open>
  \<^verbatim>\<open>b.decode("utf-8")\<close>: the bytes must be well-formed UTF-8 (no stray or missing
  continuation byte, no overlong form, no surrogate, nothing above U+10FFFF). The
  decoded \<^verbatim>\<open>str\<close> is represented by the same bytes.
\<close>

definition cont :: "char \<Rightarrow> bool" where
  "cont c = (0x80 \<le> byte c \<and> byte c \<le> 0xBF)"

fun utf8_valid :: "string \<Rightarrow> bool" where
  "utf8_valid [] = True"
| "utf8_valid (b # bs) =
     (let n = byte b in
      if n < 0x80 then utf8_valid bs
      else if 0xC2 \<le> n \<and> n \<le> 0xDF then
        (case bs of c1 # r \<Rightarrow> cont c1 \<and> utf8_valid r | _ \<Rightarrow> False)
      else if 0xE0 \<le> n \<and> n \<le> 0xEF then
        (case bs of
           c1 # c2 # r \<Rightarrow>
             (if n = 0xE0 then 0xA0 \<le> byte c1 \<and> byte c1 \<le> 0xBF
              else if n = 0xED then 0x80 \<le> byte c1 \<and> byte c1 \<le> 0x9F
              else cont c1)
             \<and> cont c2 \<and> utf8_valid r
         | _ \<Rightarrow> False)
      else if 0xF0 \<le> n \<and> n \<le> 0xF4 then
        (case bs of
           c1 # c2 # c3 # r \<Rightarrow>
             (if n = 0xF0 then 0x90 \<le> byte c1 \<and> byte c1 \<le> 0xBF
              else if n = 0xF4 then 0x80 \<le> byte c1 \<and> byte c1 \<le> 0x8F
              else cont c1)
             \<and> cont c2 \<and> cont c3 \<and> utf8_valid r
         | _ \<Rightarrow> False)
      else False)"

definition utf8_decode :: "string \<Rightarrow> exn + string" where
  "utf8_decode bs =
     (if utf8_valid bs then Inr bs
      else Inl (Exn UnicodeDecodeError ''utf-8 codec cannot decode bytes''))"

section \<open>Floating point literals\<close>

text \<open>
  \<^verbatim>\<open>float(text)\<close> of a decimal literal: the binary64 value nearest to the decimal value,
  ties to the even significand, \<^verbatim>\<open>inf\<close> on overflow. \<open>float_of_ratio neg n d\<close> rounds
  \<open>n / d\<close> (with \<open>d > 0\<close>).
\<close>

fun bit_length :: "nat \<Rightarrow> nat" where
  "bit_length n = (if n = 0 then 0 else Suc (bit_length (n div 2)))"

declare bit_length.simps [simp del]

definition round_half_even :: "nat \<Rightarrow> nat \<Rightarrow> nat" where
  "round_half_even n d =
     (let q = n div d; r = n mod d in
      if 2 * r < d then q else if d < 2 * r then q + 1 else if even q then q else q + 1)"

definition float_of_ratio :: "bool \<Rightarrow> nat \<Rightarrow> nat \<Rightarrow> pyfloat" where
  "float_of_ratio neg n d =
     (if n = 0 then FFinite neg 0 (- 1074)
      else
        let k = int (bit_length n) - int (bit_length d);
            lg = (if (if 0 \<le> k then d * 2 ^ nat k \<le> n else d \<le> n * 2 ^ nat (- k)) then k else k - 1);
            ex = max (lg - 52) (- 1074);
            m = (if 0 \<le> ex then round_half_even n (d * 2 ^ nat ex)
                 else round_half_even (n * 2 ^ nat (- ex)) d);
            m' = (if m = 2 ^ 53 then 2 ^ 52 else m);
            ex' = (if m = 2 ^ 53 then ex + 1 else ex)
        in if 971 < ex' then FInf neg else FFinite neg m' ex')"

definition nat_of_digits :: "string \<Rightarrow> nat" where
  "nat_of_digits ds = foldl (\<lambda>a c. 10 * a + (byte c - 48)) 0 ds"

text \<open>
  The literal with the decimal digits \<open>ds\<close> and the decimal exponent \<open>e10\<close>. A value
  below \<open>10\<^bsup>-330\<^esup>\<close> is less than half the least positive float and rounds to zero, a
  value of at least \<open>10\<^bsup>311\<^esup>\<close> is beyond the greatest float; the two tests give these
  results without the power of ten.
\<close>

definition float_of_decimal :: "bool \<Rightarrow> string \<Rightarrow> int \<Rightarrow> pyfloat" where
  "float_of_decimal neg ds e10 =
     (let digits = nat_of_digits ds in
      if digits = 0 then FFinite neg 0 (- 1074)
      else if int (length ds) + e10 < - 330 then FFinite neg 0 (- 1074)
      else if 310 < e10 then FInf neg
      else if 0 \<le> e10 then float_of_ratio neg (digits * 10 ^ nat e10) 1
      else float_of_ratio neg digits (10 ^ nat (- e10)))"

section \<open>JSON\<close>

text \<open>
  \<^verbatim>\<open>json.loads\<close> with the C scanner and the default decoder. A document is read as
  tokens (whitespace may stand between any two), the tokens are grouped by their
  brackets, and the groups are read as arrays and objects.
\<close>

datatype token =
    TBeginObject | TEndObject | TBeginArray | TEndArray | TColon | TComma
  | TScalar pyval

definition is_ws :: "char \<Rightarrow> bool" where
  "is_ws c = (c = CHR '' '' \<or> c = CHR 0x09 \<or> c = CHR 0x0A \<or> c = CHR 0x0D)"

definition is_digit :: "char \<Rightarrow> bool" where
  "is_digit c = (48 \<le> byte c \<and> byte c \<le> 57)"

definition hex_digit :: "char \<Rightarrow> nat option" where
  "hex_digit c =
     (let n = byte c in
      if 48 \<le> n \<and> n \<le> 57 then Some (n - 48)
      else if 97 \<le> n \<and> n \<le> 102 then Some (n - 87)
      else if 65 \<le> n \<and> n \<le> 70 then Some (n - 55)
      else None)"

definition hex4 :: "char \<Rightarrow> char \<Rightarrow> char \<Rightarrow> char \<Rightarrow> nat option" where
  "hex4 a b c d =
     (case (hex_digit a, hex_digit b, hex_digit c, hex_digit d) of
        (Some w, Some x, Some y, Some z) \<Rightarrow> Some (((w * 16 + x) * 16 + y) * 16 + z)
      | _ \<Rightarrow> None)"

text \<open>
  The UTF-8 bytes of a code point; a lone surrogate, which a \<^verbatim>\<open>str\<close> may hold, gets the
  three bytes of the same scheme.
\<close>

definition utf8_encode :: "nat \<Rightarrow> string" where
  "utf8_encode cp =
     (if cp < 0x80 then [char_of cp]
      else if cp < 0x800 then [char_of (0xC0 + cp div 64), char_of (0x80 + cp mod 64)]
      else if cp < 0x10000 then
        [char_of (0xE0 + cp div 4096), char_of (0x80 + cp div 64 mod 64),
         char_of (0x80 + cp mod 64)]
      else
        [char_of (0xF0 + cp div 262144), char_of (0x80 + cp div 4096 mod 64),
         char_of (0x80 + cp div 64 mod 64), char_of (0x80 + cp mod 64)])"

definition simple_escape :: "char \<Rightarrow> char option" where
  "simple_escape e =
     (if e = CHR 0x22 \<or> e = CHR 0x5C \<or> e = CHR ''/'' then Some e
      else if e = CHR ''b'' then Some (CHR 0x08)
      else if e = CHR ''f'' then Some (CHR 0x0C)
      else if e = CHR ''n'' then Some (CHR 0x0A)
      else if e = CHR ''r'' then Some (CHR 0x0D)
      else if e = CHR ''t'' then Some (CHR 0x09)
      else None)"

text \<open>
  After the escape of a high surrogate \<open>hi\<close>: the low surrogate that the next six
  characters \<^verbatim>\<open>\uXXXX\<close> write, if they do.
\<close>

definition low_surrogate_after :: "nat \<Rightarrow> string \<Rightarrow> nat option" where
  "low_surrogate_after hi s =
     (if 0xD800 \<le> hi \<and> hi \<le> 0xDBFF then
        (case s of
           b # u # l1 # l2 # l3 # l4 # rest \<Rightarrow>
             if b = CHR 0x5C \<and> u = CHR ''u'' then
               (case hex4 l1 l2 l3 l4 of
                  Some lo \<Rightarrow> if 0xDC00 \<le> lo \<and> lo \<le> 0xDFFF then Some lo else None
                | None \<Rightarrow> None)
             else None
         | _ \<Rightarrow> None)
      else None)"

text \<open>
  \<^verbatim>\<open>scanstring\<close> in strict mode, from after the opening quote: the content of the string
  literal and the text after its closing quote. \<open>acc\<close> is the content so far, reversed.
\<close>

fun scan_string :: "string \<Rightarrow> string \<Rightarrow> (string \<times> string) option" where
  "scan_string [] acc = None"
| "scan_string (c # cs) acc =
     (if c = CHR 0x22 then Some (rev acc, cs)
      else if c = CHR 0x5C then
        (case cs of
           [] \<Rightarrow> None
         | e # cs1 \<Rightarrow>
             if e = CHR ''u'' then
               (case cs1 of
                  h1 # h2 # h3 # h4 # cs2 \<Rightarrow>
                    (case hex4 h1 h2 h3 h4 of
                       None \<Rightarrow> None
                     | Some hi \<Rightarrow>
                         (case low_surrogate_after hi cs2 of
                            Some lo \<Rightarrow>
                              scan_string (drop 6 cs2)
                                (rev (utf8_encode (0x10000 + (hi - 0xD800) * 1024 + (lo - 0xDC00))) @ acc)
                          | None \<Rightarrow> scan_string cs2 (rev (utf8_encode hi) @ acc)))
                | _ \<Rightarrow> None)
             else (case simple_escape e of
                     None \<Rightarrow> None
                   | Some x \<Rightarrow> scan_string cs1 (x # acc)))
      else if byte c < 0x20 then None
      else scan_string cs (c # acc))"

text \<open>
  The fraction \<^verbatim>\<open>(\.\d+)?\<close> and the exponent \<^verbatim>\<open>([eE][-+]?\d+)?\<close> of a number: the digits
  (with the sign of the exponent) and the text after them; nothing is read when the
  part is not complete.
\<close>

definition scan_fraction :: "string \<Rightarrow> string \<times> string" where
  "scan_fraction s =
     (case s of
        p # d # t \<Rightarrow>
          if p = CHR ''.'' \<and> is_digit d then (d # takeWhile is_digit t, dropWhile is_digit t)
          else ([], s)
      | _ \<Rightarrow> ([], s))"

definition scan_exponent :: "string \<Rightarrow> (bool \<times> string) option \<times> string" where
  "scan_exponent s =
     (case s of
        e # t \<Rightarrow>
          if e = CHR ''e'' \<or> e = CHR ''E'' then
            (let neg = (case t of x # t' \<Rightarrow> x = CHR ''-'' | [] \<Rightarrow> False);
                 u = (case t of x # t' \<Rightarrow> if x = CHR ''-'' \<or> x = CHR ''+'' then t' else t | [] \<Rightarrow> t)
             in if takeWhile is_digit u = [] then (None, s)
                else (Some (neg, takeWhile is_digit u), dropWhile is_digit u))
          else (None, s)
      | [] \<Rightarrow> (None, s))"

text \<open>
  The number after its integer part \<open>ip\<close>: an \<^verbatim>\<open>int\<close> when it has neither fraction nor
  exponent, a \<^verbatim>\<open>float\<close> otherwise.
\<close>

definition finish_number :: "bool \<Rightarrow> string \<Rightarrow> string \<Rightarrow> pyval \<times> string" where
  "finish_number neg ip s =
     (let (frac, s1) = scan_fraction s; (ex, s2) = scan_exponent s1 in
      if frac = [] \<and> ex = None then
        (PInt (if neg then - int (nat_of_digits ip) else int (nat_of_digits ip)), s2)
      else
        (PFloat (float_of_decimal neg (ip @ frac)
           ((case ex of None \<Rightarrow> 0
             | Some (eneg, ds) \<Rightarrow> if eneg then - int (nat_of_digits ds) else int (nat_of_digits ds))
            - int (length frac))), s2))"

text \<open>
  \<^verbatim>\<open>-?(0|[1-9]\d*)\<close> and what follows it. An \<^verbatim>\<open>int\<close> literal of more than 4300
  digits raises \<^verbatim>\<open>ValueError\<close> (the interpreter's default limit on the conversion of
  a decimal text to an \<^verbatim>\<open>int\<close>); a \<^verbatim>\<open>float\<close> literal has no such limit.
\<close>

definition int_limit :: "string \<Rightarrow> pyval \<times> string \<Rightarrow> (pyval \<times> string) option" where
  "int_limit ip r =
     (case fst r of
        PInt i \<Rightarrow> if 4300 < length ip then None else Some r
      | _ \<Rightarrow> Some r)"

definition match_number :: "string \<Rightarrow> (pyval \<times> string) option" where
  "match_number s =
     (let neg = (case s of c # t \<Rightarrow> c = CHR ''-'' | [] \<Rightarrow> False);
          s1 = (if neg then tl s else s)
      in case s1 of
           [] \<Rightarrow> None
         | d # t \<Rightarrow>
             if d = CHR ''0'' then int_limit [d] (finish_number neg [d] t)
             else if is_digit d then
               int_limit (d # takeWhile is_digit t)
                 (finish_number neg (d # takeWhile is_digit t) (dropWhile is_digit t))
             else None)"

text \<open>The token at the start of \<open>s\<close> (which does not start with whitespace) and the text after it.\<close>

definition lex_token :: "string \<Rightarrow> (token \<times> string) option" where
  "lex_token s =
     (case s of
        [] \<Rightarrow> None
      | c # cs \<Rightarrow>
          if c = CHR ''{'' then Some (TBeginObject, cs)
          else if c = CHR ''}'' then Some (TEndObject, cs)
          else if c = CHR ''['' then Some (TBeginArray, cs)
          else if c = CHR '']'' then Some (TEndArray, cs)
          else if c = CHR '':'' then Some (TColon, cs)
          else if c = CHR '','' then Some (TComma, cs)
          else if c = CHR 0x22 then
            (case scan_string cs [] of
               None \<Rightarrow> None
             | Some (str, rest) \<Rightarrow> Some (TScalar (PStr str), rest))
          else if starts_with s ''null'' then Some (TScalar PNone, drop 4 s)
          else if starts_with s ''true'' then Some (TScalar (PBool True), drop 4 s)
          else if starts_with s ''false'' then Some (TScalar (PBool False), drop 5 s)
          else if starts_with s ''NaN'' then Some (TScalar (PFloat FNaN), drop 3 s)
          else if starts_with s ''Infinity'' then Some (TScalar (PFloat (FInf False)), drop 8 s)
          else if starts_with s ''-Infinity'' then Some (TScalar (PFloat (FInf True)), drop 9 s)
          else (case match_number s of
                  None \<Rightarrow> None
                | Some (v, rest) \<Rightarrow> Some (TScalar v, rest)))"

lemma scan_string_shorter:
  "scan_string s acc = Some (str, rest) \<Longrightarrow> length rest < Suc (length s)"
proof (induction s acc rule: scan_string.induct)
  case (1 acc)
  then show ?case by simp
next
  case (2 c cs acc)
  note prem = "2.prems"
  show ?case
  proof (cases "c = CHR 0x22")
    case True
    with prem show ?thesis by simp
  next
    case quote: False
    show ?thesis
    proof (cases "c = CHR 0x5C")
      case False
      with quote prem have ok: "\<not> byte c < 0x20" and rec: "scan_string cs (c # acc) = Some (str, rest)"
        by (simp_all split: if_splits)
      from "2.IH"(4) [OF quote False ok rec] show ?thesis by simp
    next
      case bs: True
      from prem quote bs obtain e cs1 where cs: "cs = e # cs1"
        by (cases cs) simp_all
      show ?thesis
      proof (cases "e = CHR ''u''")
        case False
        with prem quote bs cs obtain x where x: "simple_escape e = Some x"
          and rec: "scan_string cs1 (x # acc) = Some (str, rest)"
          by (simp split: option.splits)
        from "2.IH"(3) [OF quote bs cs False x rec] show ?thesis
          by (simp add: cs)
      next
        case u: True
        from prem quote bs cs u obtain h1 h2 h3 h4 cs2 where cs1: "cs1 = h1 # h2 # h3 # h4 # cs2"
          by (simp split: list.splits)
        from prem quote bs cs u cs1 obtain hi where hi: "hex4 h1 h2 h3 h4 = Some hi"
          by (simp split: option.splits)
        show ?thesis
        proof (cases "low_surrogate_after hi cs2")
          case None
          with prem quote bs cs u cs1 hi
          have rec: "scan_string cs2 (rev (utf8_encode hi) @ acc) = Some (str, rest)"
            by simp
          from "2.IH"(1) [OF quote bs cs u cs1 refl refl refl hi None rec] show ?thesis
            by (simp add: cs cs1)
        next
          case (Some lo)
          with prem quote bs cs u cs1 hi
          have rec: "scan_string (drop 6 cs2)
              (rev (utf8_encode (0x10000 + (hi - 0xD800) * 1024 + (lo - 0xDC00))) @ acc) = Some (str, rest)"
            by simp
          from "2.IH"(2) [OF quote bs cs u cs1 refl refl refl hi Some rec] show ?thesis
            by (simp add: cs cs1)
        qed
      qed
    qed
  qed
qed

lemma finish_number_shorter:
  "finish_number neg ip s = (v, rest) \<Longrightarrow> length rest \<le> length s"
proof -
  have le: "length (dropWhile is_digit t) \<le> length t" for t
    by (simp add: length_dropWhile_le)
  have frac: "length (snd (scan_fraction t)) \<le> length t" for t
  proof (cases t)
    case Nil
    then show ?thesis by (simp add: scan_fraction_def)
  next
    case (Cons p t1)
    show ?thesis
    proof (cases t1)
      case Nil
      with Cons show ?thesis by (simp add: scan_fraction_def)
    next
      case (Cons d t2)
      with \<open>t = p # t1\<close> le [of t2] show ?thesis by (simp add: scan_fraction_def)
    qed
  qed
  have ex: "length (snd (scan_exponent t)) \<le> length t" for t
  proof (cases t)
    case Nil
    then show ?thesis by (simp add: scan_exponent_def)
  next
    case (Cons e t1)
    show ?thesis
    proof (cases t1)
      case Nil
      with Cons show ?thesis by (simp add: scan_exponent_def)
    next
      case (Cons x t2)
      with \<open>t = e # t1\<close> le [of t2] le [of t1] show ?thesis
        by (simp add: scan_exponent_def Let_def)
    qed
  qed
  assume "finish_number neg ip s = (v, rest)"
  then have "rest = snd (scan_exponent (snd (scan_fraction s)))"
    by (simp add: finish_number_def Let_def split: prod.splits if_splits)
  then show ?thesis
    using frac [of s] ex [of "snd (scan_fraction s)"] by simp
qed

lemma lex_token_shorter:
  assumes "lex_token s = Some (t, rest)"
  shows "length rest < length s"
proof (cases s)
  case Nil
  with assms show ?thesis by (simp add: lex_token_def)
next
  case (Cons c cs)
  have num: "length r < Suc (length cs)" if "match_number (c # cs) = Some (v, r)" for v r
  proof -
    have le: "length (dropWhile is_digit u) \<le> length u" for u
      by (simp add: length_dropWhile_le)
    have fin: "length r' \<le> length u" if "int_limit ip (finish_number n ip u) = Some (v', r')"
      for n ip u v' r'
      using that finish_number_shorter [of n ip u "fst (finish_number n ip u)" "snd (finish_number n ip u)"]
      by (auto simp: int_limit_def split: pyval.splits if_splits)
    from that show ?thesis
      using le
      by (auto simp: match_number_def Let_def split: list.splits if_splits
          dest!: fin intro: le_imp_less_Suc order_trans le_SucI)
  qed
  from assms Cons show ?thesis
    by (auto simp: lex_token_def split: if_splits option.splits
        dest: scan_string_shorter num)
qed

text \<open>The tokens of a document, or \<open>None\<close> where no token starts.\<close>

function tokenize :: "string \<Rightarrow> token list option" where
  "tokenize s =
     (case dropWhile is_ws s of
        [] \<Rightarrow> Some []
      | c # cs \<Rightarrow>
          (case lex_token (c # cs) of
             None \<Rightarrow> None
           | Some (t, rest) \<Rightarrow>
               (case tokenize rest of None \<Rightarrow> None | Some ts \<Rightarrow> Some (t # ts))))"
  by pat_completeness auto
termination
proof (relation "measure length", goal_cases)
  case 1
  show ?case by simp
next
  case (2 s c cs x t rest)
  have "length (dropWhile is_ws s) \<le> length s"
    by (simp add: length_dropWhile_le)
  moreover from 2 have "length rest < length (c # cs)"
    by (auto dest: lex_token_shorter)
  ultimately show ?case using 2 by simp
qed

declare tokenize.simps [simp del]

text \<open>
  The tokens grouped by their brackets. \<open>nest\<close> keeps the groups that are open (the
  kind of each, \<open>True\<close> for an object, and what stands before it, reversed) and the
  content of the innermost one, reversed.
\<close>

datatype tree = Leaf token | Arr "tree list" | Obj "tree list"

fun nest :: "token list \<Rightarrow> (bool \<times> tree list) list \<Rightarrow> tree list \<Rightarrow> tree list option" where
  "nest [] stack cur = (if stack = [] then Some (rev cur) else None)"
| "nest (TBeginObject # ts) stack cur = nest ts ((True, cur) # stack) []"
| "nest (TBeginArray # ts) stack cur = nest ts ((False, cur) # stack) []"
| "nest (TEndObject # ts) stack cur =
     (case stack of
        (is_obj, outer) # stack' \<Rightarrow> if is_obj then nest ts stack' (Obj (rev cur) # outer) else None
      | [] \<Rightarrow> None)"
| "nest (TEndArray # ts) stack cur =
     (case stack of
        (is_obj, outer) # stack' \<Rightarrow> if is_obj then None else nest ts stack' (Arr (rev cur) # outer)
      | [] \<Rightarrow> None)"
| "nest (t # ts) stack cur = nest ts stack (Leaf t # cur)"

text \<open>Storing a key in a dict: a key that is there keeps its place and gets the new value.\<close>

fun dict_set :: "(string \<times> pyval) list \<Rightarrow> string \<times> pyval \<Rightarrow> (string \<times> pyval) list" where
  "dict_set [] kv = [kv]"
| "dict_set (p # ps) kv = (if fst p = fst kv then (fst p, snd kv) # ps else p # dict_set ps kv)"

text \<open>
  The value a group stands for: an array is values separated by commas, an object is
  members \<^verbatim>\<open>"key": value\<close> separated by commas, neither with a trailing comma.
\<close>

fun value_of :: "tree \<Rightarrow> pyval option"
  and more_items :: "tree list \<Rightarrow> pyval list option"
  and members :: "tree list \<Rightarrow> (string \<times> pyval) list option" where
  "value_of (Leaf t) = (case t of TScalar v \<Rightarrow> Some v | _ \<Rightarrow> None)"
| "value_of (Arr []) = Some (PList [])"
| "value_of (Arr (t # ts)) =
     (case value_of t of
        None \<Rightarrow> None
      | Some v \<Rightarrow> (case more_items ts of None \<Rightarrow> None | Some vs \<Rightarrow> Some (PList (v # vs))))"
| "value_of (Obj []) = Some (PDict [])"
| "value_of (Obj (t # ts)) =
     (case members (t # ts) of None \<Rightarrow> None | Some kvs \<Rightarrow> Some (PDict (foldl dict_set [] kvs)))"
| "more_items [] = Some []"
| "more_items [c] = None"
| "more_items (c # t # ts) =
     (if c = Leaf TComma then
        (case value_of t of
           None \<Rightarrow> None
         | Some v \<Rightarrow> (case more_items ts of None \<Rightarrow> None | Some vs \<Rightarrow> Some (v # vs)))
      else None)"
| "members (k # c # v # rest) =
     (case k of
        Leaf (TScalar (PStr key)) \<Rightarrow>
          if c = Leaf TColon then
            (case value_of v of
               None \<Rightarrow> None
             | Some x \<Rightarrow>
                 (case rest of
                    [] \<Rightarrow> Some [(key, x)]
                  | comma # rest' \<Rightarrow>
                      if comma = Leaf TComma then
                        (case members rest' of None \<Rightarrow> None | Some kvs \<Rightarrow> Some ((key, x) # kvs))
                      else None))
          else None
      | _ \<Rightarrow> None)"
| "members ts = None"

definition json_error :: exn where
  "json_error = Exn JSONDecodeError ''not a JSON document''"

definition json_loads :: "string \<Rightarrow> exn + pyval" where
  "json_loads s =
     (if starts_with s [CHR 0xEF, CHR 0xBB, CHR 0xBF] then Inl json_error
      else
        (case tokenize s of
           None \<Rightarrow> Inl json_error
         | Some ts \<Rightarrow>
             (case nest ts [] [] of
                Some [t] \<Rightarrow> (case value_of t of None \<Rightarrow> Inl json_error | Some v \<Rightarrow> Inr v)
              | _ \<Rightarrow> Inl json_error)))"

section \<open>Bootstrap extractor\<close>

text \<open>
  \<^verbatim>\<open>
  def parse_bootstrap_config(page):
      m = re.search(r'<script[^>]+id=["\']cl-bootstrap["\'][^>]+src=["\']([^"#]+)#([^"\']+)["\']',
                    page, re.IGNORECASE)
      if not m:
          return None
      encoded_fragment = m.group(2)
      try:
          decoded = base64.b64decode(encoded_fragment).decode("utf-8")
          config = json.loads(decoded)
          return config
      except Exception:
          return None
  \<close>
  \<open>decode_fragment\<close> is the body of the \<^verbatim>\<open>try\<close>: the first exception ends it.
\<close>

definition decode_fragment :: "string \<Rightarrow> exn + pyval" where
  "decode_fragment encoded_fragment =
     (case b64decode encoded_fragment of
        Inl e \<Rightarrow> Inl e
      | Inr raw \<Rightarrow>
          (case utf8_decode raw of
             Inl e \<Rightarrow> Inl e
           | Inr decoded \<Rightarrow> json_loads decoded))"

definition parse_bootstrap_config :: "string \<Rightarrow> exn + pyval" where
  "parse_bootstrap_config page =
     (case re_search bootstrap_pattern page of
        None \<Rightarrow> Inr PNone
      | Some groups \<Rightarrow>
          (case groups of
             g1 # encoded_fragment # _ \<Rightarrow>
               (case decode_fragment encoded_fragment of
                  Inr config \<Rightarrow> Inr config
                | Inl e \<Rightarrow> if is_Exception e then Inr PNone else Inl e)
           | _ \<Rightarrow> Inl (Exn IndexError ''no such group'')))"

section \<open>The network and the process\<close>

text \<open>
  A request is \<^verbatim>\<open>requests.get(url, timeout=...)\<close>. It raises, or returns a response, of
  which the program reads the status (in \<^verbatim>\<open>raise_for_status\<close>), \<^verbatim>\<open>resp.text\<close> and
  \<^verbatim>\<open>resp.json()\<close> (which raises or returns a value); \<open>status_error\<close> is the text of the
  \<^verbatim>\<open>HTTPError\<close> that \<^verbatim>\<open>raise_for_status\<close> builds for this response.
\<close>

record request =
  req_url :: string
  req_timeout :: nat

record response =
  status_code :: nat
  body_text :: string
  json_result :: "exn + pyval"
  status_error :: string

datatype http_result = Raises exn | Responds response

record parsed_url =
  url_scheme :: string
  url_hostname :: "string option"

text \<open>
  The environment of a run: what the network answers to the \<open>n\<close>-th request of the
  run, what \<^verbatim>\<open>urllib.parse.urlparse\<close> returns (it raises \<^verbatim>\<open>ValueError\<close> on some
  texts), and the text \<^verbatim>\<open>str(v)\<close> of a value that is not a \<^verbatim>\<open>str\<close>.
\<close>

record world =
  serve :: "nat \<Rightarrow> request \<Rightarrow> http_result"
  urlparse :: "string \<Rightarrow> exn + parsed_url"
  str_of :: "pyval \<Rightarrow> string"

text \<open>
  What a run does: the requests it sent, the lines it printed on the standard output
  and on the standard error (one entry for each call of \<^verbatim>\<open>print\<close>).
\<close>

record state =
  sent :: "request list"
  stdout :: "string list"
  stderr :: "string list"

text \<open>A run ends by \<^verbatim>\<open>sys.exit\<close> or the end of \<^verbatim>\<open>main\<close>, or by an exception nobody catches.\<close>

datatype ending = Exited nat | Uncaught exn

fun exit_status :: "ending \<Rightarrow> nat" where
  "exit_status (Exited n) = n"
| "exit_status (Uncaught e) = 1"

definition requests_get :: "world \<Rightarrow> state \<Rightarrow> string \<Rightarrow> nat \<Rightarrow> http_result \<times> state" where
  "requests_get w st u tmo =
     (let rq = \<lparr>req_url = u, req_timeout = tmo\<rparr>
      in (serve w (length (sent st)) rq, st\<lparr>sent := sent st @ [rq]\<rparr>))"

text \<open>\<^verbatim>\<open>Response.raise_for_status\<close>: an \<^verbatim>\<open>HTTPError\<close> for a status from 400 to 599.\<close>

definition raise_for_status :: "response \<Rightarrow> exn + unit" where
  "raise_for_status resp =
     (if 400 \<le> status_code resp \<and> status_code resp < 600
      then Inl (Exn HTTPError (status_error resp))
      else Inr ())"

text \<open>\<^verbatim>\<open>str(v)\<close>, what an f-string and \<^verbatim>\<open>print\<close> write for \<open>v\<close>.\<close>

fun py_str :: "world \<Rightarrow> pyval \<Rightarrow> string" where
  "py_str w (PStr s) = s"
| "py_str w v = str_of w v"

text \<open>\<^verbatim>\<open>v[key]\<close> for a \<^verbatim>\<open>str\<close> key.\<close>

fun py_getitem :: "pyval \<Rightarrow> string \<Rightarrow> exn + pyval" where
  "py_getitem (PDict d) k =
     (case map_of d k of None \<Rightarrow> Inl (Exn KeyError k) | Some v \<Rightarrow> Inr v)"
| "py_getitem v k = Inl (Exn TypeError ''indices must be integers or object is not subscriptable'')"

section \<open>Application locator and entry-asset fetcher\<close>

text \<open>
  \<^verbatim>\<open>
  def load_apps_config(cdn_host, namespace):
      base_folder = "apps" if namespace == "standard" else "internal-apps"
      url = f"{cdn_host}/web/{base_folder}/_config/apps.json"
      resp = requests.get(url, timeout=10)
      resp.raise_for_status()
      return resp.json()
  \<close>
\<close>

definition load_apps_config :: "world \<Rightarrow> state \<Rightarrow> string \<Rightarrow> pyval \<Rightarrow> (exn + pyval) \<times> state" where
  "load_apps_config w st cdn_host namespace =
     (let base_folder = (if py_eq namespace (PStr ''standard'') then ''apps'' else ''internal-apps'');
          u = cdn_host @ ''/web/'' @ base_folder @ ''/_config/apps.json'';
          (res, st') = requests_get w st u 10
      in case res of
           Raises e \<Rightarrow> (Inl e, st')
         | Responds resp \<Rightarrow>
             (case raise_for_status resp of
                Inl e \<Rightarrow> (Inl e, st')
              | Inr _ \<Rightarrow> (json_result resp, st')))"

text \<open>
  \<^verbatim>\<open>
  def fetch_entry_assets(cdn_host, namespace, repo, version):
      base_folder = "apps" if namespace == "standard" else "internal-apps"
      path = f"/web/{base_folder}/{repo}/{version}/entry-assets.json"
      url = f"{cdn_host}{path}"
      resp = requests.get(url, timeout=10)
      resp.raise_for_status()
      return resp.json()
  \<close>
\<close>

definition fetch_entry_assets ::
  "world \<Rightarrow> state \<Rightarrow> string \<Rightarrow> pyval \<Rightarrow> pyval \<Rightarrow> pyval \<Rightarrow> (exn + pyval) \<times> state" where
  "fetch_entry_assets w st cdn_host namespace repo version =
     (let base_folder = (if py_eq namespace (PStr ''standard'') then ''apps'' else ''internal-apps'');
          path = ''/web/'' @ base_folder @ ''/'' @ py_str w repo @ ''/'' @ py_str w version
                 @ ''/entry-assets.json'';
          u = cdn_host @ path;
          (res, st') = requests_get w st u 10
      in case res of
           Raises e \<Rightarrow> (Inl e, st')
         | Responds resp \<Rightarrow>
             (case raise_for_status resp of
                Inl e \<Rightarrow> (Inl e, st')
              | Inr _ \<Rightarrow> (json_result resp, st')))"

section \<open>Orchestrator\<close>

text \<open>
  Lines 95 to 99 of \<^verbatim>\<open>main\<close>: the namespace and the application identifier, from the
  bootstrap configuration when it is truthy.
  \<^verbatim>\<open>
      namespace = "standard"
      app_id = "web-portal"
      if config:
          namespace = config.get("namespace", namespace)
          app_id = config.get("appId", app_id)
  \<close>
\<close>

definition read_config :: "pyval \<Rightarrow> exn + pyval \<times> pyval" where
  "read_config config =
     (let namespace = PStr ''standard''; app_id = PStr ''web-portal'' in
      if truthy config then
        (case py_get config ''namespace'' namespace of
           Inl e \<Rightarrow> Inl e
         | Inr namespace' \<Rightarrow>
             (case py_get config ''appId'' app_id of
                Inl e \<Rightarrow> Inl e
              | Inr app_id' \<Rightarrow> Inr (namespace', app_id')))
      else Inr (namespace, app_id))"

text \<open>
  Lines 119 to 124: the listing.
  \<^verbatim>\<open>
      js_files = entry_assets.get("js", [])
      if not js_files:
          print("No JS bundles found.")
      else:
          for path in js_files:
              print(path)
  \<close>
\<close>

definition list_bundles :: "world \<Rightarrow> state \<Rightarrow> pyval \<Rightarrow> ending \<times> state" where
  "list_bundles w st entry_assets =
     (case py_get entry_assets ''js'' (PList []) of
        Inl e \<Rightarrow> (Uncaught e, st)
      | Inr js_files \<Rightarrow>
          if \<not> truthy js_files then (Exited 0, st\<lparr>stdout := stdout st @ [''No JS bundles found.'']\<rparr>)
          else (case py_iter js_files of
                  Inl e \<Rightarrow> (Uncaught e, st)
                | Inr paths \<Rightarrow> (Exited 0, st\<lparr>stdout := stdout st @ map (py_str w) paths\<rparr>)))"

text \<open>
  Lines 100 to 117: from the namespace and the identifier to the entry assets, then
  the listing. An exception of a \<^verbatim>\<open>try\<close> block that is an \<^verbatim>\<open>Exception\<close> is reported on
  the standard error and the process exits with status 1.
\<close>

definition locate_and_list :: "world \<Rightarrow> state \<Rightarrow> string \<Rightarrow> pyval \<Rightarrow> pyval \<Rightarrow> ending \<times> state" where
  "locate_and_list w st1 cdn_host namespace app_id =
     (let (r2, st2) = load_apps_config w st1 cdn_host namespace in
      case r2 of
        Inl e \<Rightarrow>
          if is_Exception e
          then (Exited 1, st2\<lparr>stderr := stderr st2 @ [''Unable to load apps configuration: '' @ message e]\<rparr>)
          else (Uncaught e, st2)
      | Inr apps \<Rightarrow>
          (case find_app apps app_id of
             Inl e \<Rightarrow> (Uncaught e, st2)
           | Inr app \<Rightarrow>
               if \<not> truthy app
               then (Exited 1, st2\<lparr>stderr := stderr st2 @
                       [''Application ID '' @ [CHR 0x27] @ py_str w app_id @ [CHR 0x27]
                        @ '' not found in apps configuration.'']\<rparr>)
               else
                 (case py_getitem app ''repo'' of
                    Inl e \<Rightarrow> (Uncaught e, st2)
                  | Inr repo \<Rightarrow>
                      (case py_getitem app ''version'' of
                         Inl e \<Rightarrow> (Uncaught e, st2)
                       | Inr version \<Rightarrow>
                           (let (r3, st3) = fetch_entry_assets w st2 cdn_host namespace repo version in
                            case r3 of
                              Inl e \<Rightarrow>
                                if is_Exception e
                                then (Exited 1, st3\<lparr>stderr := stderr st3 @
                                        [''Unable to fetch entry assets: '' @ message e]\<rparr>)
                                else (Uncaught e, st3)
                            | Inr entry_assets \<Rightarrow> list_bundles w st3 entry_assets)))))"

text \<open>
  \<^verbatim>\<open>main\<close>, with \<^verbatim>\<open>sys.argv\<close> as \<open>argv\<close>: lines 75 to 93, then the blocks above.
  \<^verbatim>\<open>
      if len(sys.argv) < 2:
          print(f"Usage: {sys.argv[0]} <url>")
          sys.exit(1)
      input_url = sys.argv[1]
      if not urllib.parse.urlparse(input_url).scheme:
          input_url = "https://" + input_url
      hostname = urllib.parse.urlparse(input_url).hostname or ""
      env_type = determine_env_type(hostname)
      cdn_host = "https://cloverstatic.com" if env_type == "prod" else "https://dev.cloverstatic.com"
      try:
          resp = requests.get(input_url, timeout=10)
          page = resp.text
      except Exception as exc:
          print(f"Error fetching {input_url}: {exc}", file=sys.stderr)
          sys.exit(1)
      config = parse_bootstrap_config(page)
  \<close>
\<close>

definition main :: "world \<Rightarrow> string list \<Rightarrow> ending \<times> state" where
  "main w argv =
     (let st0 = \<lparr>sent = [], stdout = [], stderr = []\<rparr> in
      case argv of
        [] \<Rightarrow> (Uncaught (Exn IndexError ''list index out of range''), st0)
      | [prog] \<Rightarrow> (Exited 1, st0\<lparr>stdout := [''Usage: '' @ prog @ '' <url>'']\<rparr>)
      | prog # arg # _ \<Rightarrow>
          (case urlparse w arg of
             Inl e \<Rightarrow> (Uncaught e, st0)
           | Inr p0 \<Rightarrow>
               (let input_url = (if url_scheme p0 = [] then ''https://'' @ arg else arg) in
                case urlparse w input_url of
                  Inl e \<Rightarrow> (Uncaught e, st0)
                | Inr p1 \<Rightarrow>
                    (let host = (case url_hostname p1 of None \<Rightarrow> [] | Some h \<Rightarrow> h);
                         env_type = determine_env_type host;
                         cdn_host = (if env_type = ''prod'' then ''https://cloverstatic.com''
                                     else ''https://dev.cloverstatic.com'');
                         (r1, st1) = requests_get w st0 input_url 10
                     in case r1 of
                          Raises e \<Rightarrow>
                            if is_Exception e
                            then (Exited 1, st1\<lparr>stderr := stderr st1 @
                                    [''Error fetching '' @ input_url @ '': '' @ message e]\<rparr>)
                            else (Uncaught e, st1)
                        | Responds resp \<Rightarrow>
                            (case parse_bootstrap_config (body_text resp) of
                               Inl e \<Rightarrow> (Uncaught e, st1)
                             | Inr config \<Rightarrow>
                                 (case read_config config of
                                    Inl e \<Rightarrow> (Uncaught e, st1)
                                  | Inr (namespace, app_id) \<Rightarrow>
                                      locate_and_list w st1 cdn_host namespace app_id))))))"

section \<open>Notions for the statements\<close>

text \<open>
  What a fetch function returns for an answer of the network: the exception of the
  request or of \<^verbatim>\<open>raise_for_status\<close>, else the result of \<^verbatim>\<open>resp.json()\<close>.
\<close>

definition fetched :: "http_result \<Rightarrow> exn + pyval" where
  "fetched res =
     (case res of
        Raises e \<Rightarrow> Inl e
      | Responds resp \<Rightarrow>
          (case raise_for_status resp of Inl e \<Rightarrow> Inl e | Inr u \<Rightarrow> json_result resp))"

text \<open>
  An environment for examples: the three answers of the network in the order of the
  requests, a \<^verbatim>\<open>urlparse\<close> that finds the scheme \<open>https\<close> and the host
  \<open>www.example.com\<close>, and \<open>?\<close> as the text of every value that is not a \<^verbatim>\<open>str\<close>.
\<close>

definition example_world :: "http_result \<Rightarrow> http_result \<Rightarrow> http_result \<Rightarrow> world" where
  "example_world page apps assets =
     \<lparr>serve = (\<lambda>n rq. if n = 0 then page else if n = 1 then apps else assets),
      urlparse = (\<lambda>u. Inr \<lparr>url_scheme = ''https'', url_hostname = Some ''www.example.com''\<rparr>),
      str_of = (\<lambda>v. ''?'')\<rparr>"

text \<open>A response with the given status, text and JSON value.\<close>

definition json_response :: "nat \<Rightarrow> string \<Rightarrow> pyval \<Rightarrow> http_result" where
  "json_response code body v =
     Responds \<lparr>status_code = code, body_text = body, json_result = Inr v, status_error = ''HTTP error''\<rparr>"

section \<open>Properties\<close>

lemma split_acc_not_Nil: "split_acc sep acc s \<noteq> []"
  by (induction s arbitrary: acc) auto

lemma byte_char_of: "n < 256 \<Longrightarrow> byte (char_of n) = n"
  by (simp add: byte_def)

lemma char_of_byte: "char_of (byte c) = c"
  by (simp add: byte_def)

lemma byte_inj: "byte c = byte d \<longleftrightarrow> c = d"
  by (simp add: byte_def)

lemma lower_char_iff:
  assumes "97 \<le> byte d" "byte d \<le> 122"
  shows "ascii_lower_char c = d \<longleftrightarrow> c = d \<or> byte c + 32 = byte d"
proof (cases "is_ascii_upper c")
  case True
  then have r: "65 \<le> byte c" "byte c \<le> 90" by (simp_all add: is_ascii_upper_def)
  have "char_of (byte c + 32) = d \<longleftrightarrow> byte c + 32 = byte d"
  proof
    assume "char_of (byte c + 32) = d"
    then have "byte d = byte (char_of (byte c + 32))" by simp
    also have "\<dots> = byte c + 32" using r by (simp add: byte_char_of)
    finally show "byte c + 32 = byte d" by simp
  next
    assume "byte c + 32 = byte d"
    then show "char_of (byte c + 32) = d" by (simp add: char_of_byte)
  qed
  moreover have "c \<noteq> d" using r assms by auto
  ultimately show ?thesis using True r by (simp add: ascii_lower_char_def)
next
  case False
  then show ?thesis using assms by (auto simp: ascii_lower_char_def is_ascii_upper_def)
qed

lemma ascii_cases_map:
  "ascii_cases = map (\<lambda>n. (char_of (97 + n), char_of (65 + n))) [0..<26]"
  by code_simp

lemma ascii_cases_iff:
  "(a, b) \<in> set ascii_cases \<longleftrightarrow> 97 \<le> byte a \<and> byte a \<le> 122 \<and> byte b + 32 = byte a"
proof
  assume "(a, b) \<in> set ascii_cases"
  then obtain n :: nat where n: "n < 26" "a = char_of (97 + n)" "b = char_of (65 + n)"
    by (auto simp: ascii_cases_map)
  then show "97 \<le> byte a \<and> byte a \<le> 122 \<and> byte b + 32 = byte a"
    by (simp add: byte_char_of)
next
  assume r: "97 \<le> byte a \<and> byte a \<le> 122 \<and> byte b + 32 = byte a"
  define n where "n = byte a - 97"
  have "n < 26" "byte a = 97 + n" "byte b = 65 + n"
    using r by (auto simp: n_def)
  then have "a = char_of (97 + n)" "b = char_of (65 + n)"
    by (metis char_of_byte)+
  with \<open>n < 26\<close> show "(a, b) \<in> set ascii_cases"
    by (auto simp: ascii_cases_map)
qed

lemma same_letter_lower_iff:
  assumes "97 \<le> byte d" "byte d \<le> 122"
  shows "same_letter c d \<longleftrightarrow> c = d \<or> byte c + 32 = byte d"
  using assms by (auto simp: same_letter_def ascii_cases_iff)

lemma lower_eq_iff:
  assumes "\<forall>d \<in> set w. 97 \<le> byte d \<and> byte d \<le> 122"
  shows "lower x = w \<longleftrightarrow> equals_ignoring_case x w"
  using assms
proof (induction w arbitrary: x)
  case Nil
  then show ?case by (simp add: lower_def equals_ignoring_case_def)
next
  case (Cons d w)
  have range: "97 \<le> byte d" "byte d \<le> 122"
    using Cons.prems by simp_all
  have IH: "lower y = w \<longleftrightarrow> equals_ignoring_case y w" for y
    using Cons by simp
  show ?case
  proof (cases x)
    case Nil
    then show ?thesis by (simp add: lower_def equals_ignoring_case_def)
  next
    case (Cons c y)
    have "lower (c # y) = d # w \<longleftrightarrow> ascii_lower_char c = d \<and> lower y = w"
      by (simp add: lower_def)
    also have "\<dots> \<longleftrightarrow> same_letter c d \<and> equals_ignoring_case y w"
      using lower_char_iff [OF range, of c] same_letter_lower_iff [OF range, of c] IH by simp
    finally show ?thesis using Cons by (simp add: equals_ignoring_case_def)
  qed
qed

lemma lower_literal_iff:
  "lower x = ''sandbox'' \<longleftrightarrow> equals_ignoring_case x ''sandbox''"
  "lower x = ''dev'' \<longleftrightarrow> equals_ignoring_case x ''dev''"
  "lower x = ''ondemand'' \<longleftrightarrow> equals_ignoring_case x ''ondemand''"
  by (rule lower_eq_iff, simp add: byte_def)+

lemma split_acc_label:
  "sep \<notin> set l \<Longrightarrow> split_acc sep acc (l @ s) = split_acc sep (rev l @ acc) s"
  by (induction l arbitrary: acc) auto

lemma split_acc_dotted:
  "ls \<noteq> [] \<Longrightarrow> \<forall>l \<in> set ls. CHR ''.'' \<notin> set l \<Longrightarrow>
   split_acc (CHR ''.'') acc (dotted ls) = (rev acc @ hd ls) # tl ls"
proof (induction ls arbitrary: acc rule: dotted.induct)
  case 1
  then show ?case by simp
next
  case (2 l)
  then show ?case using split_acc_label [of "CHR ''.''" l acc "[]"] by simp
next
  case (3 l m ls)
  have "split_acc (CHR ''.'') acc (l @ ''.'' @ dotted (m # ls))
        = split_acc (CHR ''.'') (rev l @ acc) (''.'' @ dotted (m # ls))"
    using 3 by (intro split_acc_label) simp
  also have "\<dots> = (rev acc @ l) # split_acc (CHR ''.'') [] (dotted (m # ls))"
    by simp
  also have "split_acc (CHR ''.'') [] (dotted (m # ls)) = m # ls"
    using 3 by simp
  finally show ?case by simp
qed

lemma split_dotted:
  "ls \<noteq> [] \<Longrightarrow> \<forall>l \<in> set ls. CHR ''.'' \<notin> set l \<Longrightarrow> split (dotted ls) (CHR ''.'') = ls"
  by (simp add: split_def split_acc_dotted)

lemma dotted_Cons: "dotted (l # ls) = (if ls = [] then l else l @ ''.'' @ dotted ls)"
  by (cases ls) simp_all

lemma dotted_split_acc:
  "dotted (split_acc (CHR ''.'') acc s) = rev acc @ s \<and> split_acc (CHR ''.'') acc s \<noteq> []
   \<and> (CHR ''.'' \<notin> set acc \<longrightarrow> (\<forall>l \<in> set (split_acc (CHR ''.'') acc s). CHR ''.'' \<notin> set l))"
proof (induction s arbitrary: acc)
  case Nil
  then show ?case by simp
next
  case (Cons c s)
  show ?case
  proof (cases "c = CHR ''.''")
    case True
    with Cons [of "[]"] show ?thesis by (simp add: dotted_Cons)
  next
    case False
    with Cons [of "c # acc"] show ?thesis by simp
  qed
qed

lemma determine_env_type_labels:
  assumes "ls \<noteq> []" "\<forall>l \<in> set ls. CHR ''.'' \<notin> set l"
  shows "determine_env_type (dotted ls) = resolve_environment_spec ls"
proof -
  obtain p0 rest where ls: "ls = p0 # rest" using assms(1) by (cases ls) auto
  have sp: "split (dotted ls) (CHR ''.'') = p0 # rest"
    using split_dotted [OF assms] ls by simp
  have "determine_env_type (dotted ls) =
          (if lower p0 = ''sandbox'' then ''prod''
           else (case rest of
                   p1 # x \<Rightarrow> if lower p1 \<in> {''dev'', ''ondemand''} then ''dev'' else ''prod''
                 | [] \<Rightarrow> ''prod''))"
    unfolding determine_env_type_def sp by simp
  also have "\<dots> = resolve_environment_spec (p0 # rest)"
    by (cases rest) (simp_all add: resolve_environment_spec_def lower_literal_iff)
  finally show ?thesis by (simp add: ls)
qed

text \<open>
  C3. For every hostname, \<open>determine_env_type\<close> returns \<open>prod\<close> or \<open>dev\<close> (it has no
  failing branch). Every hostname is the dotted form of its labels (at least one, none
  holding a \<open>.\<close>), and on the hostname with the labels \<open>ls\<close> the result is the one the
  specification's algorithm gives for \<open>ls\<close>. The empty hostname gives \<open>prod\<close>.
\<close>

theorem determine_env_type_follows_spec:
  "(\<forall>ls. ls \<noteq> [] \<and> (\<forall>l \<in> set ls. CHR ''.'' \<notin> set l)
       \<longrightarrow> determine_env_type (dotted ls) = resolve_environment_spec ls)
   \<and> (\<exists>ls. ls \<noteq> [] \<and> (\<forall>l \<in> set ls. CHR ''.'' \<notin> set l) \<and> dotted ls = h)
   \<and> determine_env_type h \<in> {''prod'', ''dev''}
   \<and> determine_env_type [] = ''prod''"
proof -
  have labels: "\<exists>ls. ls \<noteq> [] \<and> (\<forall>l \<in> set ls. CHR ''.'' \<notin> set l) \<and> dotted ls = h"
    using dotted_split_acc [of "[]" h] by (intro exI [of _ "split_acc (CHR ''.'') [] h"]) simp
  then obtain ls where ls: "ls \<noteq> []" "\<forall>l \<in> set ls. CHR ''.'' \<notin> set l" "dotted ls = h"
    by blast
  have "determine_env_type h = resolve_environment_spec ls"
    using determine_env_type_labels [OF ls(1,2)] ls(3) by simp
  then have range: "determine_env_type h \<in> {''prod'', ''dev''}"
    by (simp add: resolve_environment_spec_def)
  have empty: "determine_env_type [] = ''prod''"
    by (simp add: determine_env_type_def split_def lower_def)
  from labels range empty determine_env_type_labels show ?thesis by blast
qed

theorem determine_env_type_follows_spec_witness:
  "determine_env_type ''shop.DEV.example.com'' = ''dev''
   \<and> determine_env_type ''portal.OnDemand'' = ''dev''
   \<and> determine_env_type ''SandBox.dev.example.com'' = ''prod''
   \<and> determine_env_type ''www.example.com'' = ''prod''
   \<and> determine_env_type ''dev.example.com'' = ''prod''"
proof -
  have sl: "same_letter c c" for c by (simp add: same_letter_def)
  have up: "same_letter (CHR ''D'') (CHR ''d'')" "same_letter (CHR ''E'') (CHR ''e'')"
    "same_letter (CHR ''V'') (CHR ''v'')" "same_letter (CHR ''O'') (CHR ''o'')"
    "same_letter (CHR ''S'') (CHR ''s'')" "same_letter (CHR ''B'') (CHR ''b'')"
    by (simp_all add: same_letter_def ascii_cases_def)
  have no: "\<not> same_letter (CHR ''s'') (CHR ''p'')" "\<not> same_letter (CHR ''S'') (CHR ''p'')"
    "\<not> same_letter (CHR ''w'') (CHR ''s'')" "\<not> same_letter (CHR ''d'') (CHR ''s'')"
    "\<not> same_letter (CHR ''e'') (CHR ''d'')" "\<not> same_letter (CHR ''e'') (CHR ''o'')"
    by (simp_all add: same_letter_def ascii_cases_def)
  have spec: "determine_env_type (dotted ls) = resolve_environment_spec ls"
    if "ls \<noteq> []" "\<forall>l \<in> set ls. CHR ''.'' \<notin> set l" for ls
    using determine_env_type_follows_spec [of "[]"] that by blast
  have a: "determine_env_type (dotted [''shop'', ''DEV'', ''example'', ''com'']) = ''dev''"
    by (subst spec) (simp_all add: resolve_environment_spec_def equals_ignoring_case_def sl up no)
  have b: "determine_env_type (dotted [''portal'', ''OnDemand'']) = ''dev''"
    by (subst spec) (simp_all add: resolve_environment_spec_def equals_ignoring_case_def sl up no)
  have c: "determine_env_type (dotted [''SandBox'', ''dev'', ''example'', ''com'']) = ''prod''"
    by (subst spec) (simp_all add: resolve_environment_spec_def equals_ignoring_case_def sl up no)
  have d: "determine_env_type (dotted [''www'', ''example'', ''com'']) = ''prod''"
    by (subst spec) (simp_all add: resolve_environment_spec_def equals_ignoring_case_def sl up no)
  have e: "determine_env_type (dotted [''dev'', ''example'', ''com'']) = ''prod''"
    by (subst spec) (simp_all add: resolve_environment_spec_def equals_ignoring_case_def sl up no)
  from a b c d e show ?thesis by simp
qed

lemma py_eq_PStr: "py_eq v (PStr s) = (v = PStr s)"
  by (cases v) auto

lemma find_app_loop_find:
  "\<forall>d \<in> set ds. is_dict d \<Longrightarrow>
   find_app_loop ds (PStr s) =
     Inr (case find (\<lambda>d. id_field d = Some (PStr s)) ds of None \<Rightarrow> PNone | Some d \<Rightarrow> d)"
proof (induction ds)
  case Nil
  then show ?case by simp
next
  case (Cons d ds)
  then obtain items where d: "d = PDict items" by (cases d) auto
  from Cons show ?case
    by (cases "map_of items ''id''") (simp_all add: d py_eq_PStr)
qed

text \<open>
  C4. Over a list of descriptors (each a mapping) and a string identifier, \<open>find_app\<close>
  returns the first descriptor in list order whose \<open>id\<close> field equals the identifier,
  and \<open>None\<close> when no descriptor has that \<open>id\<close>.
\<close>

theorem find_app_first_match:
  assumes "\<forall>d \<in> set ds. is_dict d"
  shows "(\<exists>i < length ds. find_app (PList ds) (PStr s) = Inr (ds ! i)
            \<and> id_field (ds ! i) = Some (PStr s)
            \<and> (\<forall>j < i. id_field (ds ! j) \<noteq> Some (PStr s)))
         \<or> (find_app (PList ds) (PStr s) = Inr PNone
            \<and> (\<forall>d \<in> set ds. id_field d \<noteq> Some (PStr s)))"
proof (cases "find (\<lambda>d. id_field d = Some (PStr s)) ds")
  case None
  then have "\<forall>d \<in> set ds. id_field d \<noteq> Some (PStr s)"
    by (simp add: find_None_iff)
  moreover have "find_app (PList ds) (PStr s) = Inr PNone"
    using assms None by (simp add: find_app_def find_app_loop_find)
  ultimately show ?thesis by blast
next
  case (Some d)
  then obtain i where i: "i < length ds" "id_field (ds ! i) = Some (PStr s)" "d = ds ! i"
    "\<forall>j < i. id_field (ds ! j) \<noteq> Some (PStr s)"
    by (auto simp: find_Some_iff)
  moreover have "find_app (PList ds) (PStr s) = Inr d"
    using assms Some by (simp add: find_app_def find_app_loop_find)
  ultimately show ?thesis by blast
qed

theorem find_app_first_match_witness:
  "find_app (PList [PDict [(''id'', PStr ''a''), (''repo'', PStr ''ra'')],
                    PDict [(''id'', PStr ''b''), (''repo'', PStr ''rb'')]]) (PStr ''b'')
     = Inr (PDict [(''id'', PStr ''b''), (''repo'', PStr ''rb'')])
   \<and> find_app (PList [PDict [(''id'', PStr ''a''), (''repo'', PStr ''ra'')],
                      PDict [(''id'', PStr ''b''), (''repo'', PStr ''rb'')]]) (PStr ''c'')
     = Inr PNone"
proof -
  let ?ds = "[PDict [(''id'', PStr ''a''), (''repo'', PStr ''ra'')],
              PDict [(''id'', PStr ''b''), (''repo'', PStr ''rb'')]]"
  have dicts: "\<forall>d \<in> set ?ds. is_dict d" by simp
  have b: "find_app (PList ?ds) (PStr ''b'') = Inr (?ds ! 1)"
    using find_app_first_match [OF dicts, of "''b''"]
    by (auto simp: less_Suc_eq)
  have c: "find_app (PList ?ds) (PStr ''c'') = Inr PNone"
    using find_app_first_match [OF dicts, of "''c''"]
    by (auto simp: less_Suc_eq)
  from b c show ?thesis by simp
qed

lemma requests_get_eq:
  "requests_get w st u t =
     (serve w (length (sent st)) \<lparr>req_url = u, req_timeout = t\<rparr>,
      st\<lparr>sent := sent st @ [\<lparr>req_url = u, req_timeout = t\<rparr>]\<rparr>)"
  by (simp add: requests_get_def Let_def)

lemma load_apps_config_eq:
  "load_apps_config w st c ns =
     (fetched (serve w (length (sent st))
        \<lparr>req_url = c @ ''/web/'' @ (if ns = PStr ''standard'' then ''apps'' else ''internal-apps'')
                  @ ''/_config/apps.json'', req_timeout = 10\<rparr>),
      st\<lparr>sent := sent st @
        [\<lparr>req_url = c @ ''/web/'' @ (if ns = PStr ''standard'' then ''apps'' else ''internal-apps'')
                  @ ''/_config/apps.json'', req_timeout = 10\<rparr>]\<rparr>)"
  by (simp add: load_apps_config_def requests_get_eq py_eq_PStr Let_def fetched_def
      split: http_result.splits sum.splits)

lemma fetch_entry_assets_eq:
  "fetch_entry_assets w st c ns repo version =
     (fetched (serve w (length (sent st))
        \<lparr>req_url = c @ ''/web/'' @ (if ns = PStr ''standard'' then ''apps'' else ''internal-apps'')
                  @ ''/'' @ py_str w repo @ ''/'' @ py_str w version @ ''/entry-assets.json'',
         req_timeout = 10\<rparr>),
      st\<lparr>sent := sent st @
        [\<lparr>req_url = c @ ''/web/'' @ (if ns = PStr ''standard'' then ''apps'' else ''internal-apps'')
                  @ ''/'' @ py_str w repo @ ''/'' @ py_str w version @ ''/entry-assets.json'',
          req_timeout = 10\<rparr>]\<rparr>)"
  by (simp add: fetch_entry_assets_def requests_get_eq py_eq_PStr Let_def fetched_def
      split: http_result.splits sum.splits)

text \<open>
  C5. \<open>load_apps_config\<close> and \<open>fetch_entry_assets\<close> each send exactly one request, with
  timeout 10, to \<open>{host}/web/{folder}/_config/apps.json\<close> and to
  \<open>{host}/web/{folder}/{repo}/{version}/entry-assets.json\<close>, where the folder is \<open>apps\<close>
  when the namespace is the text \<open>standard\<close> and \<open>internal-apps\<close> for every other
  namespace.
\<close>

theorem fetch_urls_and_timeouts:
  "sent (snd (load_apps_config w st cdn_host namespace)) =
     sent st @ [\<lparr>req_url = cdn_host @ ''/web/''
                   @ (if namespace = PStr ''standard'' then ''apps'' else ''internal-apps'')
                   @ ''/_config/apps.json'',
                 req_timeout = 10\<rparr>]
   \<and> sent (snd (fetch_entry_assets w st cdn_host namespace (PStr repo) (PStr version))) =
     sent st @ [\<lparr>req_url = cdn_host @ ''/web/''
                   @ (if namespace = PStr ''standard'' then ''apps'' else ''internal-apps'')
                   @ ''/'' @ repo @ ''/'' @ version @ ''/entry-assets.json'',
                 req_timeout = 10\<rparr>]"
  by (simp add: load_apps_config_eq fetch_entry_assets_eq)

theorem fetch_urls_and_timeouts_witness:
  "sent (snd (load_apps_config (example_world (Raises (Exn LibraryError [])) (Raises (Exn LibraryError [])) (Raises (Exn LibraryError [])))
       \<lparr>sent = [], stdout = [], stderr = []\<rparr> ''https://cloverstatic.com'' (PStr ''standard''))) =
     [\<lparr>req_url = ''https://cloverstatic.com/web/apps/_config/apps.json'', req_timeout = 10\<rparr>]
   \<and> sent (snd (fetch_entry_assets (example_world (Raises (Exn LibraryError [])) (Raises (Exn LibraryError [])) (Raises (Exn LibraryError [])))
       \<lparr>sent = [], stdout = [], stderr = []\<rparr> ''https://dev.cloverstatic.com'' (PStr ''partner'')
       (PStr ''portal'') (PStr ''3.2.1''))) =
     [\<lparr>req_url = ''https://dev.cloverstatic.com/web/internal-apps/portal/3.2.1/entry-assets.json'',
        req_timeout = 10\<rparr>]"
  using fetch_urls_and_timeouts [of "example_world (Raises (Exn LibraryError [])) (Raises (Exn LibraryError [])) (Raises (Exn LibraryError []))"
      "\<lparr>sent = [], stdout = [], stderr = []\<rparr>" "''https://cloverstatic.com''" "PStr ''standard''"]
    fetch_urls_and_timeouts [of "example_world (Raises (Exn LibraryError [])) (Raises (Exn LibraryError [])) (Raises (Exn LibraryError []))"
      "\<lparr>sent = [], stdout = [], stderr = []\<rparr>" "''https://dev.cloverstatic.com''" "PStr ''partner''"
      "''portal''" "''3.2.1''"]
  by simp

text \<open>
  C2. The page holds a matching tag whose fragment \<open>WzFd\<close> is the base64 text of the
  JSON array \<open>[1]\<close>: \<open>parse_bootstrap_config\<close> returns the list, not \<open>None\<close>.
\<close>

theorem parse_bootstrap_config_returns_array:
  \<open>parse_bootstrap_config ''<script id="cl-bootstrap" src="/boot.js#WzFd"></script>''
     = Inr (PList [PInt 1])\<close>
  by code_simp

text \<open>
  C1. The page fetch is answered with status 404; the run goes on with the default
  namespace and identifier, prints the bundles and ends with status 0.
\<close>

theorem page_fetch_404_goes_on:
  \<open>main (example_world
       (Responds \<lparr>status_code = 404, body_text = ''Not Found'', json_result = Inl json_error,
                  status_error = ''404 Client Error: Not Found for url: https://www.example.com''\<rparr>)
       (json_response 200 [] (PList [PDict [(''id'', PStr ''web-portal''), (''repo'', PStr ''portal''),
                                             (''version'', PStr ''3.2.1'')]]))
       (json_response 200 [] (PDict [(''js'', PList [PStr ''main.abc123.js'', PStr ''vendor.def456.js''])])))
     [''yallah.py'', ''https://www.example.com'']
   = (Exited 0,
      \<lparr>sent = [\<lparr>req_url = ''https://www.example.com'', req_timeout = 10\<rparr>,
               \<lparr>req_url = ''https://cloverstatic.com/web/apps/_config/apps.json'', req_timeout = 10\<rparr>,
               \<lparr>req_url = ''https://cloverstatic.com/web/apps/portal/3.2.1/entry-assets.json'',
                  req_timeout = 10\<rparr>],
        stdout = [''main.abc123.js'', ''vendor.def456.js''], stderr = []\<rparr>)\<close>
  by code_simp

lemma list_bundles_state:
  "list_bundles w st m = (e, st') \<Longrightarrow> sent st' = sent st \<and> stderr st' = stderr st"
  by (auto simp: list_bundles_def split: sum.splits if_splits)

lemma main_reaches_locate:
  assumes "main w argv = (e, st)" "1 < length (sent st)"
  shows "\<exists>u cdn ns aid.
           cdn \<in> {''https://cloverstatic.com'', ''https://dev.cloverstatic.com''}
           \<and> locate_and_list w \<lparr>sent = [\<lparr>req_url = u, req_timeout = 10\<rparr>], stdout = [], stderr = []\<rparr>
                 cdn ns aid = (e, st)"
proof -
  have short: False if "main w argv = (e', st')" "length (sent st') \<le> 1" for e' st'
    using that assms by simp
  obtain prog arg more where argv: "argv = prog # arg # more"
  proof (cases argv)
    case Nil
    then have "main w argv = (Uncaught (Exn IndexError ''list index out of range''),
        \<lparr>sent = [], stdout = [], stderr = []\<rparr>)"
      by (simp add: main_def)
    from short [OF this] show ?thesis by simp
  next
    case (Cons prog args)
    show ?thesis
    proof (cases args)
      case Nil
      with Cons have "main w argv = (Exited 1,
          \<lparr>sent = [], stdout = [''Usage: '' @ prog @ '' <url>''], stderr = []\<rparr>)"
        by (simp add: main_def)
      from short [OF this] show ?thesis by simp
    next
      case (Cons arg more)
      with \<open>argv = prog # args\<close> that show ?thesis by simp
    qed
  qed
  obtain p0 where p0: "urlparse w arg = Inr p0"
  proof (cases "urlparse w arg")
    case (Inl x)
    with argv have "main w argv = (Uncaught x, \<lparr>sent = [], stdout = [], stderr = []\<rparr>)"
      by (simp add: main_def)
    from short [OF this] show ?thesis by simp
  next
    case (Inr p)
    with that show ?thesis by simp
  qed
  define u where "u = (if url_scheme p0 = [] then ''https://'' @ arg else arg)"
  obtain p1 where p1: "urlparse w u = Inr p1"
  proof (cases "urlparse w u")
    case (Inl x)
    with argv p0 have "main w argv = (Uncaught x, \<lparr>sent = [], stdout = [], stderr = []\<rparr>)"
      by (simp add: main_def u_def)
    from short [OF this] show ?thesis by simp
  next
    case (Inr p)
    with that show ?thesis by simp
  qed
  define cdn where "cdn = (if determine_env_type (case url_hostname p1 of None \<Rightarrow> [] | Some h \<Rightarrow> h) = ''prod''
      then ''https://cloverstatic.com'' else ''https://dev.cloverstatic.com'')"
  define st1 where "st1 = \<lparr>sent = [\<lparr>req_url = u, req_timeout = 10\<rparr>], stdout = [], stderr = []\<rparr>"
  obtain resp where resp: "serve w 0 \<lparr>req_url = u, req_timeout = 10\<rparr> = Responds resp"
  proof (cases "serve w 0 \<lparr>req_url = u, req_timeout = 10\<rparr>")
    case (Raises x)
    with argv p0 p1 have "main w argv =
        (if is_Exception x
         then (Exited 1, st1\<lparr>stderr := [''Error fetching '' @ u @ '': '' @ message x]\<rparr>)
         else (Uncaught x, st1))"
      by (simp add: main_def u_def [symmetric] requests_get_eq Let_def st1_def)
    then obtain e' st' where "main w argv = (e', st')" "length (sent st') \<le> 1"
      by (cases "is_Exception x") (simp_all add: st1_def)
    from short [OF this] show ?thesis by simp
  next
    case (Responds r)
    with that show ?thesis by simp
  qed
  obtain config where config: "parse_bootstrap_config (body_text resp) = Inr config"
  proof (cases "parse_bootstrap_config (body_text resp)")
    case (Inl x)
    with argv p0 p1 resp have "main w argv = (Uncaught x, st1)"
      by (simp add: main_def u_def [symmetric] requests_get_eq Let_def st1_def)
    from short [OF this] show ?thesis by (simp add: st1_def)
  next
    case (Inr c)
    with that show ?thesis by simp
  qed
  obtain ns aid where na: "read_config config = Inr (ns, aid)"
  proof (cases "read_config config")
    case (Inl x)
    with argv p0 p1 resp config have "main w argv = (Uncaught x, st1)"
      by (simp add: main_def u_def [symmetric] requests_get_eq Let_def st1_def)
    from short [OF this] show ?thesis by (simp add: st1_def)
  next
    case (Inr p)
    with that show ?thesis by (cases p) simp
  qed
  have "main w argv = locate_and_list w st1 cdn ns aid"
    using argv p0 p1 resp config na
    by (simp add: main_def u_def [symmetric] requests_get_eq Let_def st1_def cdn_def)
  with assms(1) have "locate_and_list w st1 cdn ns aid = (e, st)" by simp
  moreover have "cdn \<in> {''https://cloverstatic.com'', ''https://dev.cloverstatic.com''}"
    by (simp add: cdn_def)
  ultimately show ?thesis unfolding st1_def by blast
qed

lemma locate_and_list_apps_failure:
  assumes "locate_and_list w st1 c ns aid = (e, st)"
    and "length (sent st1) = 1" "stdout st1 = []" "stderr st1 = []"
    and "fetched (serve w 1 (sent st ! 1)) = Inl x" "is_Exception x"
  shows "e = Exited 1 \<and> stderr st = [''Unable to load apps configuration: '' @ message x]
         \<and> stdout st = [] \<and> length (sent st) = 2"
  using assms
  by (auto simp: locate_and_list_def load_apps_config_eq fetch_entry_assets_eq Let_def nth_append
      split: sum.splits if_splits prod.splits dest!: list_bundles_state)

lemma locate_and_list_sent:
  assumes "locate_and_list w st1 c ns aid = (e, st)"
  shows "\<exists>rest. sent st = sent st1 @
           \<lparr>req_url = c @ ''/web/'' @ (if ns = PStr ''standard'' then ''apps'' else ''internal-apps'')
                      @ ''/_config/apps.json'', req_timeout = 10\<rparr> # rest"
  using assms
  by (auto simp: locate_and_list_def load_apps_config_eq fetch_entry_assets_eq Let_def
      split: sum.splits if_splits prod.splits dest!: list_bundles_state)

text \<open>
  C7 as stated fails: the apps-manifest fetch is answered with status 300 and a JSON
  body; \<^verbatim>\<open>raise_for_status\<close> raises for 400 to 599 only, and the run ends with status 0.
\<close>

theorem apps_fetch_status_300_counterexample:
  \<open>main (example_world
       (json_response 200 ''<html></html>'' PNone)
       (json_response 300 [] (PList [PDict [(''id'', PStr ''web-portal''), (''repo'', PStr ''portal''),
                                             (''version'', PStr ''3.2.1'')]]))
       (json_response 200 [] (PDict [(''js'', PList [PStr ''main.abc123.js''])])))
     [''yallah.py'', ''https://www.example.com'']
   = (Exited 0,
      \<lparr>sent = [\<lparr>req_url = ''https://www.example.com'', req_timeout = 10\<rparr>,
               \<lparr>req_url = ''https://cloverstatic.com/web/apps/_config/apps.json'', req_timeout = 10\<rparr>,
               \<lparr>req_url = ''https://cloverstatic.com/web/apps/portal/3.2.1/entry-assets.json'',
                  req_timeout = 10\<rparr>],
        stdout = [''main.abc123.js''], stderr = []\<rparr>)\<close>
  by code_simp

text \<open>
  C7, amended. When the answer to the second request of a run, the apps-manifest
  fetch, is an exception of \<^verbatim>\<open>requests.get\<close> (an \<^verbatim>\<open>Exception\<close>) or a response with a
  status from 400 to 599, the run ends with status 1, has printed nothing, and has
  written the one line \<open>Unable to load apps configuration: \<close> followed by the text of the
  exception on the standard error; no third request is sent.
\<close>

theorem apps_fetch_failure_exits_1:
  assumes "main w argv = (e, st)" and "1 < length (sent st)"
    and "(\<exists>x. serve w 1 (sent st ! 1) = Raises x \<and> is_Exception x \<and> msg = message x)
         \<or> (\<exists>r. serve w 1 (sent st ! 1) = Responds r
                \<and> 400 \<le> status_code r \<and> status_code r < 600 \<and> msg = status_error r)"
  shows "e = Exited 1
         \<and> stderr st = [''Unable to load apps configuration: '' @ msg]
         \<and> stdout st = []
         \<and> length (sent st) = 2
         \<and> (\<exists>cdn folder. cdn \<in> {''https://cloverstatic.com'', ''https://dev.cloverstatic.com''}
               \<and> folder \<in> {''apps'', ''internal-apps''}
               \<and> sent st ! 1 = \<lparr>req_url = cdn @ ''/web/'' @ folder @ ''/_config/apps.json'',
                                req_timeout = 10\<rparr>)"
proof -
  from main_reaches_locate [OF assms(1,2)] obtain u cdn ns aid where
    cdn: "cdn \<in> {''https://cloverstatic.com'', ''https://dev.cloverstatic.com''}" and
    run: "locate_and_list w \<lparr>sent = [\<lparr>req_url = u, req_timeout = 10\<rparr>], stdout = [], stderr = []\<rparr>
            cdn ns aid = (e, st)"
    by blast
  have "\<exists>x. fetched (serve w 1 (sent st ! 1)) = Inl x \<and> is_Exception x \<and> msg = message x"
    using assms(3)
  proof (elim disjE exE conjE)
    fix x
    assume "serve w 1 (sent st ! 1) = Raises x" "is_Exception x" "msg = message x"
    then show ?thesis by (intro exI [of _ x]) (simp add: fetched_def)
  next
    fix r
    assume "serve w 1 (sent st ! 1) = Responds r" "400 \<le> status_code r" "status_code r < 600"
      "msg = status_error r"
    then show ?thesis
      by (intro exI [of _ "Exn HTTPError (status_error r)"]) (simp add: fetched_def raise_for_status_def)
  qed
  then obtain x where x: "fetched (serve w 1 (sent st ! 1)) = Inl x" "is_Exception x"
    "msg = message x"
    by blast
  from locate_and_list_apps_failure [OF run _ _ _ x(1,2)]
  have res: "e = Exited 1" "stderr st = [''Unable to load apps configuration: '' @ msg]"
    "stdout st = []" "length (sent st) = 2"
    by (simp_all add: x(3))
  from locate_and_list_sent [OF run]
  have "sent st ! 1 = \<lparr>req_url = cdn @ ''/web/''
          @ (if ns = PStr ''standard'' then ''apps'' else ''internal-apps'') @ ''/_config/apps.json'',
          req_timeout = 10\<rparr>"
    by auto
  with cdn res show ?thesis by (cases "ns = PStr ''standard''") auto
qed

theorem apps_fetch_failure_exits_1_witness:
  \<open>fst (main (example_world
            (json_response 200 ''<html></html>'' PNone)
            (Responds \<lparr>status_code = 500, body_text = [], json_result = Inl json_error,
                       status_error = ''500 Server Error''\<rparr>)
            (Raises (Exn LibraryError [])))
          [''yallah.py'', ''https://www.example.com'']) = Exited 1
   \<and> stderr (snd (main (example_world
            (json_response 200 ''<html></html>'' PNone)
            (Responds \<lparr>status_code = 500, body_text = [], json_result = Inl json_error,
                       status_error = ''500 Server Error''\<rparr>)
            (Raises (Exn LibraryError [])))
          [''yallah.py'', ''https://www.example.com'']))
       = [''Unable to load apps configuration: 500 Server Error'']
   \<and> fst (main (example_world
            (json_response 200 ''<html></html>'' PNone)
            (Raises (Exn LibraryError ''connection refused''))
            (Raises (Exn LibraryError [])))
          [''yallah.py'', ''https://www.example.com'']) = Exited 1
   \<and> stderr (snd (main (example_world
            (json_response 200 ''<html></html>'' PNone)
            (Raises (Exn LibraryError ''connection refused''))
            (Raises (Exn LibraryError [])))
          [''yallah.py'', ''https://www.example.com'']))
       = [''Unable to load apps configuration: connection refused'']\<close>
proof -
  let ?r = "\<lparr>status_code = 500, body_text = [], json_result = Inl json_error,
             status_error = ''500 Server Error''\<rparr>"
  let ?w = "example_world (json_response 200 ''<html></html>'' PNone) (Responds ?r)
              (Raises (Exn LibraryError []))"
  let ?v = "example_world (json_response 200 ''<html></html>'' PNone)
              (Raises (Exn LibraryError ''connection refused'')) (Raises (Exn LibraryError []))"
  let ?argv = "[''yallah.py'', ''https://www.example.com'']"
  have len: "1 < length (sent (snd (main ?w ?argv)))" "1 < length (sent (snd (main ?v ?argv)))"
    by code_simp+
  have a: "\<exists>r. serve ?w 1 (sent (snd (main ?w ?argv)) ! 1) = Responds r
              \<and> 400 \<le> status_code r \<and> status_code r < 600 \<and> ''500 Server Error'' = status_error r"
    by (intro exI [of _ ?r]) (simp add: example_world_def)
  have b: "\<exists>x. serve ?v 1 (sent (snd (main ?v ?argv)) ! 1) = Raises x \<and> is_Exception x
              \<and> ''connection refused'' = message x"
    by (intro exI [of _ "Exn LibraryError ''connection refused''"]) (simp add: example_world_def)
  from apps_fetch_failure_exits_1 [OF prod.collapse [symmetric] len(1) disjI2 [OF a]]
    apps_fetch_failure_exits_1 [OF prod.collapse [symmetric] len(2) disjI1 [OF b]]
  show ?thesis by simp
qed

lemma locate_and_list_listing:
  assumes run: "locate_and_list w st1 c ns aid = (e, st)"
    and st1: "length (sent st1) = 1" "stdout st1 = []" "stderr st1 = []"
    and len: "length (sent st) = 3" and m: "fetched (serve w 2 (sent st ! 2)) = Inr m"
  shows "list_bundles w \<lparr>sent = sent st, stdout = [], stderr = []\<rparr> m = (e, st)"
proof -
  define rq2 where "rq2 = \<lparr>req_url = c @ ''/web/''
      @ (if ns = PStr ''standard'' then ''apps'' else ''internal-apps'') @ ''/_config/apps.json'',
      req_timeout = 10\<rparr>"
  define st2 where "st2 = st1\<lparr>sent := sent st1 @ [rq2]\<rparr>"
  have short: False if "locate_and_list w st1 c ns aid = (e', st')" "length (sent st') = 2" for e' st'
    using that run len by simp
  have load: "load_apps_config w st1 c ns = (fetched (serve w 1 rq2), st2)"
    by (simp add: load_apps_config_eq st1 rq2_def st2_def)
  have len2: "length (sent st2) = 2" by (simp add: st2_def st1)
  obtain apps where apps: "fetched (serve w 1 rq2) = Inr apps"
  proof (cases "fetched (serve w 1 rq2)")
    case (Inl x)
    then have "locate_and_list w st1 c ns aid =
        (if is_Exception x
         then (Exited 1, st2\<lparr>stderr := stderr st2 @ [''Unable to load apps configuration: '' @ message x]\<rparr>)
         else (Uncaught x, st2))"
      by (simp add: locate_and_list_def load)
    then obtain e' st' where "locate_and_list w st1 c ns aid = (e', st')" "length (sent st') = 2"
      using len2 by (cases "is_Exception x") simp_all
    from short [OF this] show ?thesis by simp
  next
    case (Inr a)
    with that show ?thesis by simp
  qed
  obtain app where app: "find_app apps aid = Inr app"
  proof (cases "find_app apps aid")
    case (Inl x)
    with apps have "locate_and_list w st1 c ns aid = (Uncaught x, st2)"
      by (simp add: locate_and_list_def load)
    from short [OF this len2] show ?thesis by simp
  next
    case (Inr a)
    with that show ?thesis by simp
  qed
  have truthy: "truthy app"
  proof (rule ccontr)
    assume "\<not> truthy app"
    with apps app have "locate_and_list w st1 c ns aid =
        (Exited 1, st2\<lparr>stderr := stderr st2 @
           [''Application ID '' @ [CHR 0x27] @ py_str w aid @ [CHR 0x27]
            @ '' not found in apps configuration.'']\<rparr>)"
      by (simp add: locate_and_list_def load)
    from short [OF this] len2 show False by simp
  qed
  obtain repo where repo: "py_getitem app ''repo'' = Inr repo"
  proof (cases "py_getitem app ''repo''")
    case (Inl x)
    with apps app truthy have "locate_and_list w st1 c ns aid = (Uncaught x, st2)"
      by (simp add: locate_and_list_def load)
    from short [OF this len2] show ?thesis by simp
  next
    case (Inr a)
    with that show ?thesis by simp
  qed
  obtain version where version: "py_getitem app ''version'' = Inr version"
  proof (cases "py_getitem app ''version''")
    case (Inl x)
    with apps app truthy repo have "locate_and_list w st1 c ns aid = (Uncaught x, st2)"
      by (simp add: locate_and_list_def load)
    from short [OF this len2] show ?thesis by simp
  next
    case (Inr a)
    with that show ?thesis by simp
  qed
  define rq3 where "rq3 = \<lparr>req_url = c @ ''/web/''
      @ (if ns = PStr ''standard'' then ''apps'' else ''internal-apps'')
      @ ''/'' @ py_str w repo @ ''/'' @ py_str w version @ ''/entry-assets.json'',
      req_timeout = 10\<rparr>"
  define st3 where "st3 = st2\<lparr>sent := sent st2 @ [rq3]\<rparr>"
  have fetch: "fetch_entry_assets w st2 c ns repo version = (fetched (serve w 2 rq3), st3)"
    by (simp add: fetch_entry_assets_eq len2 rq3_def st3_def)
  have st3: "sent st3 ! 2 = rq3" "stdout st3 = []" "stderr st3 = []"
    using len2 by (simp_all add: st3_def st2_def st1 nth_append)
  have step: "locate_and_list w st1 c ns aid =
      (case fetched (serve w 2 rq3) of
         Inl x \<Rightarrow>
           if is_Exception x
           then (Exited 1, st3\<lparr>stderr := stderr st3 @ [''Unable to fetch entry assets: '' @ message x]\<rparr>)
           else (Uncaught x, st3)
       | Inr entry_assets \<Rightarrow> list_bundles w st3 entry_assets)"
    using apps app truthy repo version
    by (simp add: locate_and_list_def load fetch)
  have sent_st: "sent st = sent st3"
  proof (cases "fetched (serve w 2 rq3)")
    case (Inl x)
    with step run show ?thesis by (cases "is_Exception x") auto
  next
    case (Inr a)
    with step run have "list_bundles w st3 a = (e, st)" by simp
    from list_bundles_state [OF this] show ?thesis by simp
  qed
  with m st3 have m3: "fetched (serve w 2 rq3) = Inr m" by simp
  with step run have "list_bundles w st3 m = (e, st)" by simp
  moreover have "st3 = \<lparr>sent = sent st, stdout = [], stderr = []\<rparr>"
    using st3 sent_st by simp
  ultimately show ?thesis by simp
qed

end
